theory Spec2Isabelle
  imports Complex_Main "HOL-Library.Sublist" "HOL-Library.AList"
begin

section \<open>Strings as Python sees them\<close>

text \<open>
  A Python \<open>str\<close> is modelled by a HOL \<open>string\<close>: a list of characters with code
  points below 256.  On that range the classes used by \<open>re\<close>, \<open>str.split\<close>,
  \<open>str.strip\<close>, \<open>int\<close> and \<open>float\<close> are the following: the only decimal digits are
  \<open>0\<close> .. \<open>9\<close>, and the white space characters are the code points 9 .. 13, 28 .. 32,
  133 and 160.
\<close>

datatype error = HTTPError int | RequestException | ValueError | FileNotFoundError

definition is_digit :: "char \<Rightarrow> bool" where
  "is_digit c = (48 \<le> (of_char c :: nat) \<and> (of_char c :: nat) \<le> 57)"

definition is_space :: "char \<Rightarrow> bool" where
  "is_space c = (let n = (of_char c :: nat) in
     (9 \<le> n \<and> n \<le> 13) \<or> (28 \<le> n \<and> n \<le> 32) \<or> n = 133 \<or> n = 160)"

definition digit_val :: "char \<Rightarrow> int" where
  "digit_val c = of_char c - 48"

text \<open>
  \<open>int(s)\<close> on a run of decimal digits.  The conversion raises \<open>ValueError\<close> when the
  run has more than 4300 digits, leading zeros counted (the limit
  \<open>sys.get_int_max_str_digits()\<close> of CPython, at its default).
\<close>

definition int_of_digits :: "string \<Rightarrow> int" where
  "int_of_digits ds = foldl (\<lambda>a c. 10 * a + digit_val c) 0 ds"

definition int_max_str_digits :: nat where
  "int_max_str_digits = 4300"

definition py_int :: "string \<Rightarrow> error + int" where
  "py_int ds =
     (if int_max_str_digits < length ds then Inl ValueError else Inr (int_of_digits ds))"

text \<open>
  A Python \<open>float\<close> that is not negative and not a NaN: a binary64 number, given by
  its exact value, or \<open>inf\<close>.
\<close>

datatype double = Finite rat | Infinity

text \<open>
  The binary64 number nearest to a rational that is not negative, ties going to the
  even significand, and \<open>inf\<close> when the rounded value is \<open>2 ^ 1024\<close> or more.  With
  \<open>lg\<close> the integer part of the binary logarithm of \<open>x\<close>, the significand is
  \<open>x / 2 ^ e\<close> rounded to an integer, where \<open>e\<close> is \<open>lg - 52\<close>, and \<open>- 1074\<close> for the
  subnormal numbers.
\<close>

definition round_half_even :: "rat \<Rightarrow> int" where
  "round_half_even x =
     (let f = \<lfloor>x\<rfloor>; r = x - of_int f
      in if r < 1 / 2 then f
         else if 1 / 2 < r then f + 1
         else if even f then f else f + 1)"

function bit_length :: "int \<Rightarrow> int" where
  "bit_length n = (if n \<le> 0 then 0 else 1 + bit_length (n div 2))"
  by pat_completeness auto
termination
  by (relation "measure nat") auto

declare bit_length.simps [simp del]

definition pow2 :: "int \<Rightarrow> rat" where
  "pow2 k = (if 0 \<le> k then 2 ^ nat k else 1 / 2 ^ nat (- k))"

definition double_of_rat :: "rat \<Rightarrow> double" where
  "double_of_rat x =
     (if x \<le> 0 then Finite 0
      else (let (p, q) = quotient_of x;
                k = bit_length p - bit_length q;
                lg = (if pow2 k \<le> x then k else k - 1);
                e = max (lg - 52) (- 1074);
                m = round_half_even (x / pow2 e)
            in if pow2 1024 \<le> of_int m * pow2 e then Infinity
               else Finite (of_int m * pow2 e)))"

text \<open>
  \<open>float(s)\<close> on a text of the shape \<open>\d+(\.\d+)?\<close>, the only shape the group
  \<open>val\<close> of the price pattern can have: \<open>decimal_of_val\<close> is the number the text
  denotes, and \<open>float\<close> returns the binary64 number nearest to it.  \<open>float\<close> has no
  limit on the number of digits.
\<close>

definition decimal_of_val :: "string \<Rightarrow> rat" where
  "decimal_of_val s =
     (case dropWhile is_digit s of
        [] \<Rightarrow> of_int (int_of_digits s)
      | _ # fpart \<Rightarrow> of_int (int_of_digits (takeWhile is_digit s))
                   + of_int (int_of_digits fpart) / 10 ^ length fpart)"

definition float_of_val :: "string \<Rightarrow> double" where
  "float_of_val s = double_of_rat (decimal_of_val s)"

text \<open>\<open>s.strip()\<close>, \<open>s.split()\<close> and \<open>sep.join(parts)\<close>.\<close>

definition lstrip :: "string \<Rightarrow> string" where
  "lstrip s = dropWhile is_space s"

definition strip :: "string \<Rightarrow> string" where
  "strip s = rev (dropWhile is_space (rev (dropWhile is_space s)))"

fun split_ws :: "string \<Rightarrow> string \<Rightarrow> string list" where
  "split_ws cur [] = (if cur = [] then [] else [cur])"
| "split_ws cur (c # cs) =
     (if is_space c then (if cur = [] then split_ws [] cs else cur # split_ws [] cs)
      else split_ws (cur @ [c]) cs)"

definition py_split :: "string \<Rightarrow> string list" where
  "py_split s = split_ws [] s"

fun join :: "string \<Rightarrow> string list \<Rightarrow> string" where
  "join sep [] = []"
| "join sep [x] = x"
| "join sep (x # y # ys) = x @ sep @ join sep (y # ys)"

text \<open>
  \<open>s.replace(old, new)\<close>: every occurrence of \<open>old\<close>, found scanning from the left
  without overlap, is replaced.  With an empty \<open>old\<close>, Python puts \<open>new\<close> before every
  character and at the end.
\<close>

function py_replace :: "string \<Rightarrow> string \<Rightarrow> string \<Rightarrow> string" where
  "py_replace old new s =
     (if old = [] then concat (map (\<lambda>c. new @ [c]) s) @ new
      else if s = [] then []
      else if prefix old s then new @ py_replace old new (drop (length old) s)
      else hd s # py_replace old new (tl s))"
  by pat_completeness auto
termination
  by (relation "measure (\<lambda>(old, new, s). length s)") auto

declare py_replace.simps [simp del]

section \<open>The two regular expressions of the extractor\<close>

text \<open>
  \<open>re.search(r"(?P<cur>[^\d\s])\s*(?P<val>\d+(?:\.\d+)?)", raw)\<close>.
  \<open>price_val_group\<close> is the greedy match of \<open>\d+(?:\.\d+)?\<close> at the head of a
  text; \<open>price_match_here\<close> is the match of the whole pattern anchored at the head;
  \<open>price_search\<close> tries every start position from the left, as \<open>re.search\<close> does,
  and returns the groups \<open>(cur, val)\<close> of the first match.  White space and digits
  are disjoint and nothing follows the optional fraction, so the greedy choices are
  never undone by backtracking.
\<close>

definition price_val_group :: "string \<Rightarrow> string option" where
  "price_val_group s =
     (let ds = takeWhile is_digit s; rest = dropWhile is_digit s in
      if ds = [] then None
      else (case rest of
              c # rest' \<Rightarrow>
                (if c = CHR ''.'' \<and> takeWhile is_digit rest' \<noteq> []
                 then Some (ds @ [c] @ takeWhile is_digit rest')
                 else Some ds)
            | [] \<Rightarrow> Some ds))"

definition price_match_here :: "string \<Rightarrow> (string \<times> string) option" where
  "price_match_here s =
     (case s of
        [] \<Rightarrow> None
      | c # rest \<Rightarrow>
          (if is_digit c \<or> is_space c then None
           else (case price_val_group (dropWhile is_space rest) of
                   None \<Rightarrow> None
                 | Some v \<Rightarrow> Some ([c], v))))"

fun price_search :: "string \<Rightarrow> (string \<times> string) option" where
  "price_search [] = None"
| "price_search (c # cs) =
     (case price_match_here (c # cs) of
        Some m \<Rightarrow> Some m
      | None \<Rightarrow> price_search cs)"

text \<open>\<open>re.search(r"(\d+)", raw)\<close>: the first run of digits, if there is one.\<close>

definition digits_search :: "string \<Rightarrow> string option" where
  "digits_search raw =
     (let ds = takeWhile is_digit (dropWhile (\<lambda>c. \<not> is_digit c) raw) in
      if ds = [] then None else Some ds)"

section \<open>The field parsers nested in \<open>get_book_data\<close>\<close>

text \<open>
  \<open>if not raw\<close> holds for \<open>None\<close> and for the empty string.  The three results of
  \<open>parse_price\<close> are \<open>(price, currency, price_text)\<close>.
\<close>

definition parse_price :: "string option \<Rightarrow> double option \<times> string option \<times> string option" where
  "parse_price raw =
     (case raw of
        None \<Rightarrow> (None, None, None)
      | Some r \<Rightarrow>
          (if r = [] then (None, None, None)
           else (case price_search r of
                   None \<Rightarrow> (None, None, Some r)
                 | Some (cur, val) \<Rightarrow> (Some (float_of_val val), Some cur, Some r))))"

definition rating_map :: "string \<rightharpoonup> int" where
  "rating_map =
     map_of [(''One'', 1), (''Two'', 2), (''Three'', 3), (''Four'', 4), (''Five'', 5)]"

text \<open>The loop \<open>for c in classes\<close> of \<open>parse_rating\<close>.\<close>

fun rating_of_classes :: "string list \<Rightarrow> int option" where
  "rating_of_classes [] = None"
| "rating_of_classes (c # cs) =
     (case rating_map c of Some r \<Rightarrow> Some r | None \<Rightarrow> rating_of_classes cs)"

text \<open>
  \<open>parse_availability\<close> raises when \<open>int\<close> does; the result is then \<open>Inl\<close> of the
  exception.
\<close>

definition parse_availability :: "string option \<Rightarrow> error + (int option \<times> string option)" where
  "parse_availability raw =
     (case raw of
        None \<Rightarrow> Inr (None, None)
      | Some r \<Rightarrow>
          (if r = [] then Inr (None, None)
           else (case digits_search r of
                   None \<Rightarrow> Inr (None, Some (strip r))
                 | Some ds \<Rightarrow>
                     (case py_int ds of
                        Inl e \<Rightarrow> Inl e
                      | Inr n \<Rightarrow> Inr (Some n, Some (strip r))))))"

section \<open>Documents\<close>

text \<open>
  A response body is modelled by the tree that \<open>BeautifulSoup(text, "html.parser")\<close>
  builds from it: tags with their attribute dictionary and their children, and text
  nodes.  The soup itself is the tag named \<open>[document]\<close>.  The parser stores tag and
  attribute names in lower case.  The attribute \<open>class\<close> is kept here as the text of
  the page; the parser splits it at white space into the token list that
  \<open>node.get("class")\<close> returns and that class selectors test.
\<close>

datatype node = Tag string "(string \<times> string) list" "node list" | NavigableString string

fun tag_name :: "node \<Rightarrow> string option" where
  "tag_name (Tag n _ _) = Some n"
| "tag_name (NavigableString _) = None"

text \<open>\<open>node.get(key)\<close>.\<close>

fun get_attr :: "node \<Rightarrow> string \<Rightarrow> string option" where
  "get_attr (Tag _ attrs _) key = map_of attrs key"
| "get_attr (NavigableString _) key = None"

text \<open>\<open>node.get("class", [])\<close>.\<close>

definition get_class :: "node \<Rightarrow> string list" where
  "get_class nd = (case get_attr nd ''class'' of None \<Rightarrow> [] | Some v \<Rightarrow> py_split v)"

text \<open>
  Every node below a node, in document order, each with the chain of its ancestors
  (the nearest first).
\<close>

fun descendants :: "node list \<Rightarrow> node \<Rightarrow> (node list \<times> node) list" where
  "descendants anc (NavigableString s) = []"
| "descendants anc (Tag n attrs cs) =
     concat (map (\<lambda>c. (Tag n attrs cs # anc, c) # descendants (Tag n attrs cs # anc) c) cs)"

fun all_strings :: "node \<Rightarrow> string list" where
  "all_strings (NavigableString s) = [s]"
| "all_strings (Tag n attrs cs) = concat (map all_strings cs)"

text \<open>\<open>node.get_text()\<close> and \<open>node.get_text(strip=True)\<close>.\<close>

definition get_text :: "node \<Rightarrow> string" where
  "get_text nd = concat (all_strings nd)"

definition get_text_strip :: "node \<Rightarrow> string" where
  "get_text_strip nd = concat (filter (\<lambda>s. s \<noteq> []) (map strip (all_strings nd)))"

text \<open>
  The selectors of the source are chains of compound selectors (an optional tag name,
  an optional id, a list of classes) joined by the descendant combinator.
\<close>

datatype compound = Compound "string option" "string option" "string list"

fun matches_compound :: "compound \<Rightarrow> node \<Rightarrow> bool" where
  "matches_compound (Compound t i cls) nd =
     (case tag_name nd of
        None \<Rightarrow> False
      | Some n \<Rightarrow>
          (case t of None \<Rightarrow> True | Some t' \<Rightarrow> t' = n)
          \<and> (case i of None \<Rightarrow> True | Some i' \<Rightarrow> get_attr nd ''id'' = Some i')
          \<and> list_all (\<lambda>k. k \<in> set (get_class nd)) cls)"

fun matches_ancestors :: "compound list \<Rightarrow> node list \<Rightarrow> bool" where
  "matches_ancestors [] anc = True"
| "matches_ancestors (c # cs) [] = False"
| "matches_ancestors (c # cs) (a # anc) =
     (if matches_compound c a then matches_ancestors cs anc
      else matches_ancestors (c # cs) anc)"

definition matches :: "compound list \<Rightarrow> node list \<times> node \<Rightarrow> bool" where
  "matches sel e =
     (case rev sel of
        [] \<Rightarrow> False
      | c # outer \<Rightarrow> matches_compound c (snd e) \<and> matches_ancestors outer (fst e))"

text \<open>
  \<open>node.select(sel)\<close> and \<open>node.select_one(sel)\<close>: the tags below the node that
  match, in document order, and the first of them.  The ancestors looked at start at
  the node; the one selector used on a node other than the soup, \<open>tr\<close>, has no
  ancestor part.
\<close>

definition select :: "compound list \<Rightarrow> node \<Rightarrow> node list" where
  "select sel doc = map snd (filter (matches sel) (descendants [] doc))"

definition select_one :: "compound list \<Rightarrow> node \<Rightarrow> node option" where
  "select_one sel doc = (case select sel doc of [] \<Rightarrow> None | nd # _ \<Rightarrow> Some nd)"

text \<open>\<open>node.find(name)\<close>: the first tag of that name below the node.\<close>

definition find_tag :: "string \<Rightarrow> node \<Rightarrow> node option" where
  "find_tag n doc = find (\<lambda>nd. tag_name nd = Some n) (map snd (descendants [] doc))"

text \<open>
  \<open>soup.select_one(sel).find_next(name)\<close>: the first tag of that name that comes
  after the first match of \<open>sel\<close> in document order; the outer \<open>None\<close> says that
  \<open>sel\<close> matches nothing.
\<close>

definition select_one_find_next :: "compound list \<Rightarrow> string \<Rightarrow> node \<Rightarrow> node option option" where
  "select_one_find_next sel n doc =
     (case dropWhile (\<lambda>e. \<not> matches sel e) (descendants [] doc) of
        [] \<Rightarrow> None
      | _ # after \<Rightarrow> Some (find (\<lambda>nd. tag_name nd = Some n) (map snd after)))"

definition tag_sel :: "string \<Rightarrow> string list \<Rightarrow> compound" where
  "tag_sel t cls = Compound (Some t) None cls"

definition id_sel :: "string \<Rightarrow> compound" where
  "id_sel i = Compound None (Some i) []"

section \<open>The extractor: \<open>get_book_data\<close>\<close>

record book =
  url :: string
  title :: "string option"
  price :: "double option"
  currency :: "string option"
  price_text :: "string option"
  rating :: "int option"
  availability_count :: "int option"
  availability_text :: "string option"
  description :: "string option"
  product_info :: "(string \<times> string) list"

definition text_or_none :: "node option \<Rightarrow> string option" where
  "text_or_none nd = map_option get_text_strip nd"

definition parse_rating :: "node option \<Rightarrow> int option" where
  "parse_rating star_node =
     (case star_node of None \<Rightarrow> None | Some nd \<Rightarrow> rating_of_classes (get_class nd))"

text \<open>
  The loop over the rows of the product table.  The dictionary \<open>product_info\<close> is an
  association list in insertion order; assigning to a key that is already there
  replaces its value in place.
\<close>

fun info_rows :: "node list \<Rightarrow> (string \<times> string) list \<Rightarrow> (string \<times> string) list" where
  "info_rows [] info = info"
| "info_rows (tr # trs) info =
     (case (find_tag ''th'' tr, find_tag ''td'' tr) of
        (Some th, Some td) \<Rightarrow>
          info_rows trs (AList.update (get_text_strip th) (get_text_strip td) info)
      | _ \<Rightarrow> info_rows trs info)"

text \<open>
  Lines 77 to 118 of \<open>get_book_data\<close>: from the soup to the dictionary, or to the
  exception that \<open>parse_availability\<close> raises at line 88.
\<close>

definition book_data :: "string \<Rightarrow> node \<Rightarrow> error + book" where
  "book_data book_url soup =
     (let title' = text_or_none (select_one [tag_sel ''div'' [''product_main''], tag_sel ''h1'' []] soup);
          price_node = select_one [tag_sel ''div'' [''product_main''], tag_sel ''p'' [''price_color'']] soup;
          price_text' = text_or_none price_node;
          (price_val, currency_symbol, price_raw) = parse_price price_text';
          rating_node = select_one [tag_sel ''p'' [''star-rating'']] soup;
          rating' = parse_rating rating_node;
          avail_node = select_one
            [tag_sel ''div'' [''product_main''], tag_sel ''p'' [''instock'', ''availability'']] soup;
          avail_text = map_option (\<lambda>nd. join '' '' (py_split (get_text nd))) avail_node
      in case parse_availability avail_text of
           Inl e \<Rightarrow> Inl e
         | Inr (availability_count', availability_text') \<Rightarrow>
             (let description' =
                    (case select_one_find_next [id_sel ''product_description''] ''p'' soup of
                       None \<Rightarrow> None
                     | Some p \<Rightarrow> text_or_none p);
                  product_info' =
                    (case select_one [tag_sel ''table'' [''table'', ''table-striped'']] soup of
                       None \<Rightarrow> []
                     | Some info_table \<Rightarrow> info_rows (select [tag_sel ''tr'' []] info_table) [])
              in Inr \<lparr> url = book_url, title = title', price = price_val,
                       currency = currency_symbol, price_text = price_raw, rating = rating',
                       availability_count = availability_count',
                       availability_text = availability_text', description = description',
                       product_info = product_info' \<rparr>))"

section \<open>The network, the console and the file\<close>

text \<open>
  \<open>session.get(url, headers=headers)\<close> either raises (no connection, a timeout) or
  returns a response with a status code and a body.  What the server answers may
  depend on everything requested before, so the network is a function of the
  requests made so far and of the address.  The header is the same constant in every
  call and is left out.

  The state threaded through the program holds the addresses requested so far, the
  dictionaries printed by \<open>get_book_data\<close>, whether the directory \<open>artifacts\<close>
  exists, and the content of \<open>artifacts/books_data.txt\<close> (\<open>None\<close> while there is
  no such file).
\<close>

datatype fetched = Response int node | ConnectionError

type_synonym network = "string list \<Rightarrow> string \<Rightarrow> fetched"

record world =
  requests :: "string list"
  printed :: "book list"
  artifacts_dir :: bool
  books_file :: "string option"

definition BASE_URL :: string where
  "BASE_URL = ''http://books.toscrape.com''"

text \<open>\<open>response.raise_for_status()\<close> raises for the codes 400 to 599.\<close>

definition raises_for_status :: "int \<Rightarrow> bool" where
  "raises_for_status code = (400 \<le> code \<and> code < 600)"

definition get_book_data :: "network \<Rightarrow> string \<Rightarrow> world \<Rightarrow> world \<times> (error + book)" where
  "get_book_data net book_url w =
     (let w1 = w\<lparr>requests := requests w @ [book_url]\<rparr> in
      case net (requests w) book_url of
        ConnectionError \<Rightarrow> (w1, Inl RequestException)
      | Response code soup \<Rightarrow>
          (if raises_for_status code then (w1, Inl (HTTPError code))
           else (case book_data book_url soup of
                   Inl e \<Rightarrow> (w1, Inl e)
                 | Inr data \<Rightarrow> (w1\<lparr>printed := printed w1 @ [data]\<rparr>, Inr data))))"

section \<open>The catalogue walker: \<open>scrape_books\<close>\<close>

text \<open>The decimal text of an integer, as an f-string prints it.\<close>

fun str_of_nat :: "nat \<Rightarrow> string" where
  "str_of_nat n =
     (if n < 10 then [char_of (48 + n)]
      else str_of_nat (n div 10) @ [char_of (48 + n mod 10)])"

declare str_of_nat.simps [simp del]

definition str_of_int :: "int \<Rightarrow> string" where
  "str_of_int i = (if i < 0 then ''-'' @ str_of_nat (nat (- i)) else str_of_nat (nat i))"

definition page_url :: "int \<Rightarrow> string" where
  "page_url page_num = BASE_URL @ ''/catalogue/page-'' @ str_of_int page_num @ ''.html''"

text \<open>Lines 164 to 166: from the \<open>href\<close> of a card to the address of the detail page.\<close>

definition book_url_of_href :: "string \<Rightarrow> string" where
  "book_url_of_href href =
     (let href' = (if prefix ''../'' href then py_replace ''../'' [] href else href)
      in BASE_URL @ ''/catalogue/'' @ href')"

text \<open>
  The loop \<open>for a in book_cards\<close>.  An exception raised by \<open>get_book_data\<close> leaves
  the loop and the function.
\<close>

fun cards_loop :: "network \<Rightarrow> node list \<Rightarrow> world \<Rightarrow> book list \<Rightarrow> world \<times> (error + book list)" where
  "cards_loop net [] w all_books = (w, Inr all_books)"
| "cards_loop net (a # cards) w all_books =
     (case get_attr a ''href'' of
        None \<Rightarrow> cards_loop net cards w all_books
      | Some href \<Rightarrow>
          (if href = [] then cards_loop net cards w all_books
           else (case get_book_data net (book_url_of_href href) w of
                   (w', Inl e) \<Rightarrow> (w', Inl e)
                 | (w', Inr data) \<Rightarrow> cards_loop net cards w' (all_books @ [data]))))"

definition book_cards :: "node \<Rightarrow> node list" where
  "book_cards soup =
     select [tag_sel ''article'' [''product_pod''], tag_sel ''h3'' [], tag_sel ''a'' []] soup"

text \<open>
  The loop \<open>while True\<close>, from the head of an iteration.  It need not end: the result
  \<open>None\<close> stands for a run that goes on for ever.
\<close>

partial_function (option) pages_loop ::
  "network \<Rightarrow> int option \<Rightarrow> int \<Rightarrow> world \<Rightarrow> book list \<Rightarrow> (world \<times> (error + book list)) option"
where
  "pages_loop net pages_to_scrape page_num w all_books =
     (case net (requests w) (page_url page_num) of
        ConnectionError \<Rightarrow>
          Some (w\<lparr>requests := requests w @ [page_url page_num]\<rparr>, Inl RequestException)
      | Response code soup \<Rightarrow>
          (if code \<noteq> 200
           then Some (w\<lparr>requests := requests w @ [page_url page_num]\<rparr>, Inr all_books)
           else (case cards_loop net (book_cards soup)
                        (w\<lparr>requests := requests w @ [page_url page_num]\<rparr>) all_books of
                   (w', Inl e) \<Rightarrow> Some (w', Inl e)
                 | (w', Inr all_books') \<Rightarrow>
                     (if Some page_num = pages_to_scrape then Some (w', Inr all_books')
                      else pages_loop net pages_to_scrape (page_num + 1) w' all_books'))))"

declare pages_loop.simps [code]

text \<open>
  Lines 177 to 180.  \<open>json.dumps(book, ensure_ascii=False)\<close> is a parameter,
  \<open>dumps\<close>.  Opening the file for writing fails when the directory is missing and
  empties the file otherwise.
\<close>

definition save_books :: "(book \<Rightarrow> string) \<Rightarrow> book list \<Rightarrow> world \<Rightarrow> world \<times> (error + unit)" where
  "save_books dumps all_books w =
     (if \<not> artifacts_dir w then (w, Inl FileNotFoundError)
      else (w\<lparr>books_file := Some (concat (map (\<lambda>b. dumps b @ [CHR 0x0A]) all_books))\<rparr>, Inr ()))"

definition scrape_books ::
  "network \<Rightarrow> (book \<Rightarrow> string) \<Rightarrow> bool \<Rightarrow> int option \<Rightarrow> world \<Rightarrow> (world \<times> (error + book list)) option"
where
  "scrape_books net dumps is_save pages_to_scrape w =
     (case pages_loop net pages_to_scrape 1 w [] of
        None \<Rightarrow> None
      | Some (w', Inl e) \<Rightarrow> Some (w', Inl e)
      | Some (w', Inr all_books) \<Rightarrow>
          (if is_save
           then (case save_books dumps all_books w' of
                   (w'', Inl e) \<Rightarrow> Some (w'', Inl e)
                 | (w'', Inr _) \<Rightarrow> Some (w'', Inr all_books))
           else Some (w', Inr all_books)))"

section \<open>Notions used to state the properties\<close>

text \<open>The number written with the integer digits \<open>ds\<close> and the fraction digits \<open>fs\<close>.\<close>

definition decimal_value :: "string \<Rightarrow> string \<Rightarrow> rat" where
  "decimal_value ds fs = of_int (int_of_digits ds) + of_int (int_of_digits fs) / 10 ^ length fs"

text \<open>
  The price pattern occurs in a text: somewhere a character that is neither a digit
  nor white space is followed by optional white space and a digit.
\<close>

definition price_pattern_occurs :: "string \<Rightarrow> bool" where
  "price_pattern_occurs raw =
     (\<exists>pre c ws d rest. raw = pre @ c # ws @ d # rest \<and> \<not> is_digit c \<and> \<not> is_space c
        \<and> list_all is_space ws \<and> is_digit d)"

text \<open>The words of the rating vocabulary.\<close>

definition rating_words :: "string list" where
  "rating_words = [''One'', ''Two'', ''Three'', ''Four'', ''Five'']"

text \<open>
  The links of the cards of a catalogue page, in page order: the \<open>href\<close> of every
  card that has one, the empty ones left out.
\<close>

definition card_hrefs :: "node list \<Rightarrow> string list" where
  "card_hrefs cards =
     concat (map (\<lambda>a. case get_attr a ''href'' of
                          None \<Rightarrow> []
                        | Some h \<Rightarrow> if h = [] then [] else [h]) cards)"

definition detail_links :: "node \<Rightarrow> string list" where
  "detail_links soup = card_hrefs (book_cards soup)"

text \<open>
  A catalogue page is unavailable when the answer carries a status other than 200.
  The detail page at an address succeeds when there is an answer, \<open>raise_for_status\<close>
  lets it pass and the extraction raises nothing.
\<close>

definition unavailable :: "fetched \<Rightarrow> bool" where
  "unavailable f = (case f of Response code _ \<Rightarrow> code \<noteq> 200 | ConnectionError \<Rightarrow> False)"

definition detail_page_succeeds :: "string \<Rightarrow> fetched \<Rightarrow> bool" where
  "detail_page_succeeds u f =
     (case f of
        Response code soup \<Rightarrow>
          \<not> raises_for_status code
          \<and> (case book_data u soup of Inl _ \<Rightarrow> False | Inr _ \<Rightarrow> True)
      | ConnectionError \<Rightarrow> False)"

text \<open>
  One pass through the body of \<open>while True\<close> that goes on to the next page: the
  catalogue page arrives with status 200, every card is processed without an
  exception, and the page is not the last one asked for.  The states are
  \<open>(page_num, world, all_books)\<close> at the head of the loop.
\<close>

inductive iteration :: "network \<Rightarrow> int option \<Rightarrow> int \<times> world \<times> book list \<Rightarrow> int \<times> world \<times> book list \<Rightarrow> bool"
  for net :: network and pmax :: "int option" where
  "net (requests w) (page_url p) = Response 200 soup \<Longrightarrow>
   cards_loop net (book_cards soup) (w\<lparr>requests := requests w @ [page_url p]\<rparr>) bs = (w', Inr bs') \<Longrightarrow>
   Some p \<noteq> pmax \<Longrightarrow>
   iteration net pmax (p, w, bs) (p + 1, w', bs')"

section \<open>Example documents\<close>

definition example_price_node :: node where
  "example_price_node =
     Tag ''p'' [(''class'', ''price_color'')] [NavigableString (CHR 0xA3 # ''51.77'')]"

definition example_rating_node :: node where
  "example_rating_node = Tag ''p'' [(''class'', ''star-rating Three'')] []"

definition example_detail :: node where
  "example_detail =
     Tag ''[document]'' []
       [Tag ''div'' [(''class'', ''col-sm-6 product_main'')]
          [Tag ''h1'' [] [NavigableString ''A Light in the Attic''],
           example_price_node,
           example_rating_node]]"

definition example_free_node :: node where
  "example_free_node = Tag ''p'' [(''class'', ''price_color'')] [NavigableString '' Free '']"

definition example_free :: node where
  "example_free =
     Tag ''[document]'' []
       [Tag ''div'' [(''class'', ''product_main'')]
          [example_free_node, Tag ''p'' [(''class'', ''star-rating'')] []]]"

definition example_anchor :: node where
  "example_anchor = Tag ''a'' [(''title'', ''No link'')] [NavigableString ''No link'']"

definition example_url :: string where
  "example_url = ''http://books.toscrape.com/catalogue/a-light-in-the-attic_1000/index.html''"

definition example_catalog :: node where
  "example_catalog =
     Tag ''[document]'' []
       [Tag ''article'' [(''class'', ''product_pod'')]
          [Tag ''h3'' [] [Tag ''a'' [(''href'', ''../a/index.html'')] [NavigableString ''A'']]],
        Tag ''article'' [(''class'', ''product_pod'')]
          [Tag ''h3'' [] [example_anchor]],
        Tag ''article'' [(''class'', ''product_pod'')]
          [Tag ''h3'' [] [Tag ''a'' [(''href'', ''b/index.html'')] [NavigableString ''B'']]]]"

definition empty_document :: node where
  "empty_document = Tag ''[document]'' [] []"

text \<open>
  A site with one catalogue page: page 1 lists the cards above, page 2 does not exist,
  every other address is the example detail page.
\<close>

definition example_net :: network where
  "example_net h u =
     (if u = page_url 1 then Response 200 example_catalog
      else if u = page_url 2 then Response 404 empty_document
      else Response 200 example_detail)"

definition example_world :: world where
  "example_world = \<lparr> requests = [], printed = [], artifacts_dir = True, books_file = None \<rparr>"

text \<open>A catalogue page with one card.\<close>

definition single_catalog :: node where
  "single_catalog =
     Tag ''[document]'' []
       [Tag ''article'' [(''class'', ''product_pod'')]
          [Tag ''h3'' [] [Tag ''a'' [(''href'', ''b/index.html'')] [NavigableString ''B'']]]]"

text \<open>Page 1 lists one card; its detail page is answered with 304 and no body.\<close>

definition not_modified_net :: network where
  "not_modified_net h u =
     (if u = page_url 1 then Response 200 single_catalog else Response 304 empty_document)"

text \<open>The example site, except that the second detail page is not found.\<close>

definition failing_net :: network where
  "failing_net h u =
     (if u = page_url 1 then Response 200 example_catalog
      else if u = book_url_of_href ''b/index.html'' then Response 404 empty_document
      else Response 200 example_detail)"

text \<open>A server that answers a second request for an address with another document.\<close>

definition changing_net :: network where
  "changing_net h u = (if u \<in> set h then Response 200 example_free else Response 200 example_detail)"

text \<open>
  Some serialiser, to have one in the examples; \<open>json.dumps\<close> is a parameter of
  \<open>scrape_books\<close> and nothing shown below depends on what it writes.
\<close>

definition example_dumps :: "book \<Rightarrow> string" where
  "example_dumps b = url b"

text \<open>The records of the example documents.\<close>

definition example_record :: "string \<Rightarrow> book" where
  "example_record u =
     \<lparr> url = u, title = Some ''A Light in the Attic'',
       price = Some (Finite (7285979772155331 / 140737488355328)),
       currency = Some [CHR 0xA3], price_text = Some (CHR 0xA3 # ''51.77''),
       rating = Some 3, availability_count = None, availability_text = None,
       description = None, product_info = [] \<rparr>"

definition free_record :: "string \<Rightarrow> book" where
  "free_record u =
     \<lparr> url = u, title = None, price = None, currency = None, price_text = Some ''Free'',
       rating = None, availability_count = None, availability_text = None,
       description = None, product_info = [] \<rparr>"

definition blank_record :: "string \<Rightarrow> book" where
  "blank_record u =
     \<lparr> url = u, title = None, price = None, currency = None, price_text = None,
       rating = None, availability_count = None, availability_text = None,
       description = None, product_info = [] \<rparr>"

text \<open>
  A detail page whose availability text is a run of 4301 digits, and a site that
  answers every request with it.
\<close>

definition long_availability :: node where
  "long_availability =
     Tag ''[document]'' []
       [Tag ''div'' [(''class'', ''product_main'')]
          [Tag ''p'' [(''class'', ''instock availability'')]
             [NavigableString (replicate 4301 (CHR ''1''))]]]"

definition long_availability_net :: network where
  "long_availability_net h u = Response 200 long_availability"

text \<open>A site that cannot be reached, and a world without the directory \<open>artifacts\<close>.\<close>

definition unreachable_net :: network where
  "unreachable_net h u = ConnectionError"

definition world_without_dir :: world where
  "world_without_dir = \<lparr> requests = [], printed = [], artifacts_dir = False, books_file = None \<rparr>"

section \<open>Characters and runs\<close>

lemma digit_not_space: "is_digit c \<Longrightarrow> \<not> is_space c"
  by (auto simp: is_digit_def is_space_def Let_def)

lemma dot_not_digit: "\<not> is_digit CHR ''.''"
  by (simp add: is_digit_def)

lemma takeWhile_run:
  "list_all P xs \<Longrightarrow> ys = [] \<or> \<not> P (hd ys) \<Longrightarrow> takeWhile P (xs @ ys) = xs"
  by (cases ys) (auto simp: list_all_iff takeWhile_append2)

lemma dropWhile_run:
  "list_all P xs \<Longrightarrow> ys = [] \<or> \<not> P (hd ys) \<Longrightarrow> dropWhile P (xs @ ys) = ys"
  by (cases ys) (auto simp: list_all_iff dropWhile_append2)

lemma takeWhile_all: "\<forall>x\<in>set xs. P x \<Longrightarrow> takeWhile P xs = xs"
  by simp

lemma dropWhile_all: "\<forall>x\<in>set xs. P x \<Longrightarrow> dropWhile P xs = []"
  by simp

section \<open>The price pattern\<close>

lemma price_val_group_int:
  assumes "ds \<noteq> []" "list_all is_digit ds" "rest = [] \<or> \<not> is_digit (hd rest)"
    and "\<not> (\<exists>d r. rest = CHR ''.'' # d # r \<and> is_digit d)"
  shows "price_val_group (ds @ rest) = Some ds"
proof -
  have t: "takeWhile is_digit (ds @ rest) = ds" and d: "dropWhile is_digit (ds @ rest) = rest"
    using assms by (simp_all add: takeWhile_run dropWhile_run)
  show ?thesis
  proof (cases rest)
    case Nil
    then show ?thesis using assms(1,2)
      by (simp add: price_val_group_def list_all_iff takeWhile_all dropWhile_all)
  next
    case (Cons c rest')
    then have "c = CHR ''.'' \<Longrightarrow> takeWhile is_digit rest' = []"
      using assms(4) by (cases rest') auto
    then show ?thesis using assms(1) t d Cons by (auto simp add: price_val_group_def Let_def)
  qed
qed

lemma price_val_group_frac:
  assumes "ds \<noteq> []" "list_all is_digit ds" "fs \<noteq> []" "list_all is_digit fs"
    and "rest = [] \<or> \<not> is_digit (hd rest)"
  shows "price_val_group (ds @ CHR ''.'' # fs @ rest) = Some (ds @ CHR ''.'' # fs)"
proof -
  have t: "takeWhile is_digit (ds @ CHR ''.'' # fs @ rest) = ds"
    and d: "dropWhile is_digit (ds @ CHR ''.'' # fs @ rest) = CHR ''.'' # fs @ rest"
    using assms by (simp_all add: takeWhile_run dropWhile_run dot_not_digit)
  have f: "takeWhile is_digit (fs @ rest) = fs"
    using assms by (simp add: takeWhile_run)
  show ?thesis using assms(1,3) t d f by (simp add: price_val_group_def Let_def)
qed

lemma float_of_val_int:
  "list_all is_digit ds \<Longrightarrow> float_of_val ds = double_of_rat (decimal_value ds [])"
  by (simp add: float_of_val_def decimal_of_val_def decimal_value_def list_all_iff dropWhile_all)
    (simp add: int_of_digits_def)

lemma float_of_val_frac:
  "list_all is_digit ds \<Longrightarrow>
   float_of_val (ds @ CHR ''.'' # fs) = double_of_rat (decimal_value ds fs)"
  using dropWhile_run [of is_digit ds "CHR ''.'' # fs"] takeWhile_run [of is_digit ds "CHR ''.'' # fs"]
  by (simp add: float_of_val_def decimal_of_val_def decimal_value_def dot_not_digit)

lemma price_match_here_marker:
  assumes "\<not> is_digit c" "\<not> is_space c" "list_all is_space ws"
    and "s = [] \<or> \<not> is_space (hd s)"
  shows "price_match_here (c # ws @ s) = map_option (Pair [c]) (price_val_group s)"
  using assms dropWhile_run [of is_space ws s]
  by (auto simp: price_match_here_def split: option.splits)

lemma price_search_skip:
  "list_all (\<lambda>x. is_digit x \<or> is_space x) pre \<Longrightarrow> price_search (pre @ s) = price_search s"
  by (induction pre) (auto simp: price_match_here_def)

lemma price_search_hit:
  "price_match_here s = Some m \<Longrightarrow> price_search s = Some m"
  by (cases s) (auto simp: price_match_here_def)

lemma price_val_group_Some_digit:
  "price_val_group s = Some v \<Longrightarrow> \<exists>d rest. s = d # rest \<and> is_digit d"
  by (cases s) (auto simp: price_val_group_def Let_def split: if_splits)

lemma price_match_here_occurs:
  assumes "price_match_here s = Some m"
  shows "price_pattern_occurs s"
proof -
  from assms obtain c cs v where s: "s = c # cs" and c: "\<not> is_digit c" "\<not> is_space c"
    and v: "price_val_group (dropWhile is_space cs) = Some v"
    by (cases s) (auto simp: price_match_here_def split: if_splits option.splits)
  from v obtain d rest where d: "dropWhile is_space cs = d # rest" "is_digit d"
    using price_val_group_Some_digit by blast
  have "cs = takeWhile is_space cs @ d # rest"
    using d(1) takeWhile_dropWhile_id [of is_space cs] by simp
  moreover have "list_all is_space (takeWhile is_space cs)"
    by (simp add: list_all_iff) (meson set_takeWhileD)
  ultimately have "s = [] @ c # takeWhile is_space cs @ d # rest \<and> \<not> is_digit c \<and> \<not> is_space c
      \<and> list_all is_space (takeWhile is_space cs) \<and> is_digit d"
    using s c d(2) by simp
  then show ?thesis unfolding price_pattern_occurs_def by blast
qed

lemma price_pattern_occurs_Cons:
  "price_pattern_occurs s \<Longrightarrow> price_pattern_occurs (x # s)"
  unfolding price_pattern_occurs_def
  by (metis append_Cons)

lemma price_search_occurs:
  "price_search s = Some m \<Longrightarrow> price_pattern_occurs s"
proof (induction s)
  case Nil
  then show ?case by simp
next
  case (Cons c cs)
  show ?case
  proof (cases "price_match_here (c # cs)")
    case None
    with Cons show ?thesis by (simp add: price_pattern_occurs_Cons)
  next
    case (Some a)
    then show ?thesis by (rule price_match_here_occurs)
  qed
qed

lemma price_pattern_occurs_digit:
  "price_pattern_occurs s \<Longrightarrow> \<exists>d\<in>set s. is_digit d"
  unfolding price_pattern_occurs_def by auto

lemma book_data_price:
  "book_data u soup = Inr b \<Longrightarrow>
   (price b, currency b, price_text b) =
     parse_price (text_or_none
       (select_one [tag_sel ''div'' [''product_main''], tag_sel ''p'' [''price_color'']] soup))"
  by (auto simp: book_data_def Let_def split: prod.splits sum.splits)

lemma parse_price_marked_decimal:
  assumes "\<not> is_digit c" "\<not> is_space c" "list_all is_space ws"
    and "ds \<noteq> []" "list_all is_digit ds" "fs \<noteq> []" "list_all is_digit fs"
  shows "parse_price (Some (c # ws @ ds @ CHR ''.'' # fs)) =
           (Some (double_of_rat (decimal_value ds fs)), Some [c],
            Some (c # ws @ ds @ CHR ''.'' # fs))"
proof -
  have hd: "\<not> is_space (hd (ds @ CHR ''.'' # fs))"
    using assms(4,5) by (cases ds) (auto simp: digit_not_space)
  have "price_val_group (ds @ CHR ''.'' # fs @ []) = Some (ds @ CHR ''.'' # fs)"
    using assms by (intro price_val_group_frac) simp_all
  then have "price_match_here (c # ws @ ds @ CHR ''.'' # fs) = Some ([c], ds @ CHR ''.'' # fs)"
    using price_match_here_marker [OF assms(1-3), of "ds @ CHR ''.'' # fs"] hd by simp
  then have "price_search (c # ws @ ds @ CHR ''.'' # fs) = Some ([c], ds @ CHR ''.'' # fs)"
    by (rule price_search_hit)
  then show ?thesis
    using assms(5) by (simp add: parse_price_def float_of_val_frac)
qed

text \<open>
  Claim C5.  Let the extraction return a record, let the price element of the document
  exist and let \<open>raw\<close> be its stripped text.  If \<open>raw\<close> is a currency marker (one
  character, neither digit nor white space), optional white space, digits, a dot and
  digits, then the price of the record is what \<open>float\<close> makes of the decimal number
  written there (the nearest binary64 number, \<open>inf\<close> beyond the range), the currency
  is the marker and \<open>price_text\<close> is \<open>raw\<close>.  If \<open>raw\<close> is not empty and the pattern
  occurs nowhere in it, then price and currency are \<open>None\<close> and \<open>price_text\<close> is
  \<open>raw\<close>.  If \<open>raw\<close> is empty, all three are \<open>None\<close>.
\<close>

theorem price_fields:
  assumes "book_data u soup = Inr b"
    and "select_one [tag_sel ''div'' [''product_main''], tag_sel ''p'' [''price_color'']] soup
           = Some nd"
    and "get_text_strip nd = raw"
  shows "(\<forall>c ws ds fs.
            raw = c # ws @ ds @ CHR ''.'' # fs \<and> \<not> is_digit c \<and> \<not> is_space c
            \<and> list_all is_space ws \<and> ds \<noteq> [] \<and> list_all is_digit ds
            \<and> fs \<noteq> [] \<and> list_all is_digit fs
            \<longrightarrow> price b = Some (double_of_rat (decimal_value ds fs))
                \<and> currency b = Some [c]
                \<and> price_text b = Some raw)
       \<and> (raw \<noteq> [] \<and> \<not> price_pattern_occurs raw
            \<longrightarrow> price b = None \<and> currency b = None \<and> price_text b = Some raw)
       \<and> (raw = [] \<longrightarrow> price b = None \<and> currency b = None \<and> price_text b = None)"
proof -
  have fields: "(price b, currency b, price_text b) = parse_price (Some raw)"
    using assms book_data_price [of u soup b] by (simp add: text_or_none_def)
  have no_match: "price_search raw = None" if "\<not> price_pattern_occurs raw"
    using that price_search_occurs [of raw] by (cases "price_search raw") auto
  show ?thesis
  proof (intro conjI allI impI)
    fix c ws ds fs
    assume form: "raw = c # ws @ ds @ CHR ''.'' # fs \<and> \<not> is_digit c \<and> \<not> is_space c
            \<and> list_all is_space ws \<and> ds \<noteq> [] \<and> list_all is_digit ds
            \<and> fs \<noteq> [] \<and> list_all is_digit fs"
    then have "parse_price (Some raw)
        = (Some (double_of_rat (decimal_value ds fs)), Some [c], Some raw)"
      using parse_price_marked_decimal [of c ws ds fs] by simp
    with fields show "price b = Some (double_of_rat (decimal_value ds fs))"
      and "currency b = Some [c]"
      and "price_text b = Some raw"
      by simp_all
  next
    assume "raw \<noteq> [] \<and> \<not> price_pattern_occurs raw"
    then have "parse_price (Some raw) = (None, None, Some raw)"
      using no_match by (simp add: parse_price_def)
    with fields show "price b = None" and "currency b = None" and "price_text b = Some raw"
      by simp_all
  next
    assume "raw = []"
    then have "parse_price (Some raw) = (None, None, None)"
      by (simp add: parse_price_def)
    with fields show "price b = None" and "currency b = None" and "price_text b = None"
      by simp_all
  qed
qed

lemma example_detail_price_node: "select_one [tag_sel ''div'' [''product_main''], tag_sel ''p'' [''price_color'']] example_detail = Some example_price_node"
  by code_simp

lemma example_price_node_text: "get_text_strip example_price_node = CHR 0xA3 # ''51.77''"
  by code_simp

lemma example_free_price_node: "select_one [tag_sel ''div'' [''product_main''], tag_sel ''p'' [''price_color'']] example_free = Some example_free_node"
  by code_simp

lemma example_free_node_text: "get_text_strip example_free_node = ''Free''"
  by code_simp

lemma book_data_example_detail: "book_data example_url example_detail = Inr (example_record example_url)"
  by code_simp

lemma book_data_example_free: "book_data example_url example_free = Inr (free_record example_url)"
  by code_simp

lemma double_of_51_77:
  "double_of_rat (decimal_value ''51'' ''77'') = Finite (7285979772155331 / 140737488355328)"
  by code_simp

theorem price_fields_witness:
  "book_data example_url example_detail = Inr (example_record example_url)
   \<and> price (example_record example_url) = Some (Finite (7285979772155331 / 140737488355328))
   \<and> currency (example_record example_url) = Some [CHR 0xA3]
   \<and> price_text (example_record example_url) = Some (CHR 0xA3 # ''51.77'')
   \<and> book_data example_url example_free = Inr (free_record example_url)
   \<and> price (free_record example_url) = None
   \<and> currency (free_record example_url) = None
   \<and> price_text (free_record example_url) = Some ''Free''"
proof -
  have form: "CHR 0xA3 # ''51.77'' = CHR 0xA3 # [] @ ''51'' @ CHR ''.'' # ''77''
      \<and> \<not> is_digit (CHR 0xA3) \<and> \<not> is_space (CHR 0xA3) \<and> list_all is_space []
      \<and> ''51'' \<noteq> [] \<and> list_all is_digit ''51'' \<and> ''77'' \<noteq> [] \<and> list_all is_digit ''77''"
    by (simp add: is_digit_def is_space_def)
  have free: "''Free'' \<noteq> [] \<and> \<not> price_pattern_occurs ''Free''"
    using price_pattern_occurs_digit [of "''Free''"] by (auto simp: is_digit_def)
  from price_fields [OF book_data_example_detail example_detail_price_node example_price_node_text]
    form double_of_51_77
  have a: "price (example_record example_url) = Some (Finite (7285979772155331 / 140737488355328))
   \<and> currency (example_record example_url) = Some [CHR 0xA3]
   \<and> price_text (example_record example_url) = Some (CHR 0xA3 # ''51.77'')"
    by metis
  from price_fields [OF book_data_example_free example_free_price_node example_free_node_text] free
  have b: "price (free_record example_url) = None
   \<and> currency (free_record example_url) = None
   \<and> price_text (free_record example_url) = Some ''Free''"
    by blast
  from a b book_data_example_detail book_data_example_free show ?thesis by simp
qed

text \<open>
  Claim C10, as the code has it.  Let \<open>c\<close> be the first character of a price text that
  is neither a digit nor white space (so the text may well start with digits), and let
  a number follow it after optional white space: the digits \<open>ds\<close>, with or without a
  fraction \<open>.fs\<close>.  Then the parser matches there: the currency is \<open>c\<close> and the price
  is what \<open>float\<close> makes of that number.  For \<open>51.77\<close> the currency is the dot and the
  price is 77.
\<close>

theorem parse_price_first_marker:
  assumes "list_all (\<lambda>x. is_digit x \<or> is_space x) pre"
    and "\<not> is_digit c" "\<not> is_space c" "list_all is_space ws"
    and "ds \<noteq> []" "list_all is_digit ds" "list_all is_digit fs"
    and "rest = [] \<or> \<not> is_digit (hd rest)"
    and "fs = [] \<longrightarrow> \<not> (\<exists>d r. rest = CHR ''.'' # d # r \<and> is_digit d)"
    and "raw = pre @ c # ws @ ds @ (if fs = [] then [] else CHR ''.'' # fs) @ rest"
  shows "parse_price (Some raw) = (Some (double_of_rat (decimal_value ds fs)), Some [c], Some raw)"
proof -
  let ?num = "ds @ (if fs = [] then [] else CHR ''.'' # fs)"
  have hd: "\<not> is_space (hd (?num @ rest))"
    using assms(5,6) by (cases ds) (auto simp: digit_not_space)
  have grp: "price_val_group (?num @ rest) = Some ?num"
  proof (cases "fs = []")
    case True
    then show ?thesis using assms price_val_group_int [of ds rest] by simp
  next
    case False
    then show ?thesis using assms price_val_group_frac [of ds fs rest] by simp
  qed
  have val: "float_of_val ?num = double_of_rat (decimal_value ds fs)"
    using assms(6) by (simp add: float_of_val_int float_of_val_frac)
  have "price_match_here (c # ws @ ?num @ rest) = Some ([c], ?num)"
    using price_match_here_marker [OF assms(2-4), of "?num @ rest"] hd grp by simp
  then have "price_search (c # ws @ ?num @ rest) = Some ([c], ?num)"
    by (rule price_search_hit)
  then have "price_search raw = Some ([c], ?num)"
    using assms(1,10) price_search_skip [of pre "c # ws @ ?num @ rest"] by simp
  then show ?thesis
    using val assms(10) by (simp add: parse_price_def)
qed

lemma double_of_77: "double_of_rat (decimal_value ''77'' []) = Finite 77"
  by code_simp

theorem parse_price_first_marker_witness:
  "parse_price (Some ''51.77'') = (Some (Finite 77), Some ''.'', Some ''51.77'')"
  using parse_price_first_marker [of "''51''" "CHR ''.''" "[]" "''77''" "[]" "[]" "''51.77''"]
  by (simp add: is_digit_def is_space_def double_of_77)

text \<open>
  A text of digits alone starts with digits and has no leading marker, and the parser
  does not match it.  In the second text the first character that is neither a digit
  nor white space is the pound sign, and no number follows it: the currency is the
  dot.
\<close>

theorem parse_price_without_following_number:
  "parse_price (Some ''51'') = (None, None, Some ''51'')
   \<and> parse_price (Some [CHR ''5'', CHR 0xA3, CHR ''.'', CHR ''5''])
       = (Some (Finite 5), Some ''.'', Some [CHR ''5'', CHR 0xA3, CHR ''.'', CHR ''5''])"
  by code_simp

section \<open>The rating\<close>

lemma rating_map_None_iff: "rating_map c = None \<longleftrightarrow> c \<notin> set rating_words"
  by (simp add: rating_map_def rating_words_def)

lemma rating_of_classes_filter:
  "rating_of_classes cs =
     (case filter (\<lambda>c. c \<in> set rating_words) cs of [] \<Rightarrow> None | w # _ \<Rightarrow> rating_map w)"
proof (induction cs)
  case Nil
  then show ?case by simp
next
  case (Cons c cs)
  show ?case
  proof (cases "rating_map c")
    case None
    then have "c \<notin> set rating_words" using rating_map_None_iff [of c] by simp
    then show ?thesis using Cons None by simp
  next
    case (Some r)
    then have "c \<in> set rating_words" using rating_map_None_iff [of c] by simp
    then show ?thesis using Some by simp
  qed
qed

lemma rating_map_pairs:
  "(w, r) \<in> {(''One'', 1), (''Two'', 2), (''Three'', 3), (''Four'', 4), (''Five'', 5)}
     \<Longrightarrow> rating_map w = Some r"
  by (auto simp: rating_map_def)

lemma book_data_rating:
  "book_data u soup = Inr b \<Longrightarrow>
   rating b = parse_rating (select_one [tag_sel ''p'' [''star-rating'']] soup)"
  by (auto simp: book_data_def Let_def split: prod.splits sum.splits)

text \<open>
  Claim C6.  Let the extraction return a record.  Without a rating element its rating
  is \<open>None\<close>.  With one, if exactly one of its class tokens is a word of the
  vocabulary, wherever it stands among the other tokens, the rating is the number of
  that word, from 1 to 5; if none of its tokens is such a word, the rating is \<open>None\<close>.
\<close>

theorem rating_from_class_tokens:
  assumes "book_data u soup = Inr b"
  shows "(select_one [tag_sel ''p'' [''star-rating'']] soup = None \<longrightarrow> rating b = None)
   \<and> (\<forall>nd. select_one [tag_sel ''p'' [''star-rating'']] soup = Some nd \<longrightarrow>
        (\<forall>w r. (w, r) \<in> {(''One'', 1), (''Two'', 2), (''Three'', 3), (''Four'', 4), (''Five'', 5)}
            \<and> filter (\<lambda>c. c \<in> set rating_words) (get_class nd) = [w]
            \<longrightarrow> rating b = Some r)
        \<and> (filter (\<lambda>c. c \<in> set rating_words) (get_class nd) = []
            \<longrightarrow> rating b = None))"
proof (intro conjI allI impI)
  assume "select_one [tag_sel ''p'' [''star-rating'']] soup = None"
  then show "rating b = None"
    using assms by (simp add: book_data_rating parse_rating_def)
next
  fix nd w and r :: int
  assume nd: "select_one [tag_sel ''p'' [''star-rating'']] soup = Some nd"
    and w: "(w, r) \<in> {(''One'', 1), (''Two'', 2), (''Three'', 3), (''Four'', 4), (''Five'', 5)}
            \<and> filter (\<lambda>c. c \<in> set rating_words) (get_class nd) = [w]"
  from w have "rating_map w = Some r" using rating_map_pairs by blast
  with nd w show "rating b = Some r"
    using assms by (simp add: book_data_rating parse_rating_def rating_of_classes_filter)
next
  fix nd
  assume "select_one [tag_sel ''p'' [''star-rating'']] soup = Some nd"
    and "filter (\<lambda>c. c \<in> set rating_words) (get_class nd) = []"
  then show "rating b = None"
    using assms by (simp add: book_data_rating parse_rating_def rating_of_classes_filter)
qed

lemma example_detail_rating_node: "select_one [tag_sel ''p'' [''star-rating'']] example_detail = Some example_rating_node"
  by code_simp

lemma example_rating_node_words: "filter (\<lambda>c. c \<in> set rating_words) (get_class example_rating_node) = [''Three'']"
  by code_simp

lemma example_free_rating_node: "select_one [tag_sel ''p'' [''star-rating'']] example_free = Some (Tag ''p'' [(''class'', ''star-rating'')] [])"
  by code_simp

lemma example_free_rating_words: "filter (\<lambda>c. c \<in> set rating_words) (get_class (Tag ''p'' [(''class'', ''star-rating'')] [])) = []"
  by code_simp


theorem rating_from_class_tokens_witness:
  "book_data example_url example_detail = Inr (example_record example_url)
   \<and> rating (example_record example_url) = Some 3
   \<and> book_data example_url example_free = Inr (free_record example_url)
   \<and> rating (free_record example_url) = None"
  using rating_from_class_tokens [OF book_data_example_detail]
    example_detail_rating_node example_rating_node_words
    rating_from_class_tokens [OF book_data_example_free]
    example_free_rating_node example_free_rating_words
    book_data_example_detail book_data_example_free
  by auto

section \<open>From a link to the address of a detail page\<close>

lemma py_replace_absent:
  "old \<noteq> [] \<Longrightarrow> \<not> sublist old s \<Longrightarrow> py_replace old new s = s"
proof (induction old new s rule: py_replace.induct)
  case (1 old new s)
  show ?case
  proof (cases s)
    case Nil
    then show ?thesis using "1.prems" by (simp add: py_replace.simps)
  next
    case (Cons c cs)
    have np: "\<not> prefix old s" using "1.prems"(2) by (auto dest: prefix_imp_sublist)
    have "\<not> sublist old cs" using "1.prems"(2) Cons by (simp add: sublist_Cons_right)
    then have "py_replace old new (tl s) = tl s"
      using "1.IH"(2) "1.prems"(1) np Cons by simp
    then show ?thesis
      using "1.prems"(1) np Cons by (subst py_replace.simps) simp
  qed
qed

lemma py_replace_prefix:
  "old \<noteq> [] \<Longrightarrow> py_replace old new (old @ s) = new @ py_replace old new s"
  by (subst py_replace.simps) simp

text \<open>
  Claim C7, as the code has it.  For a link \<open>../X\<close> every occurrence of \<open>../\<close> is
  removed, not the leading one alone, and what is left is put under the catalogue
  path.  The address is the catalogue path followed by \<open>X\<close> itself when \<open>../\<close> does
  not occur in \<open>X\<close>.
\<close>

theorem book_url_of_dotdot_href:
  "book_url_of_href (''../'' @ X) = BASE_URL @ ''/catalogue/'' @ py_replace ''../'' [] X
   \<and> (\<not> sublist ''../'' X \<longrightarrow> book_url_of_href (''../'' @ X) = BASE_URL @ ''/catalogue/'' @ X)"
proof -
  have "py_replace ''../'' [] (''../'' @ X) = py_replace ''../'' [] X"
    using py_replace_prefix [of "''../''" "[]" X] by simp
  then have "book_url_of_href (''../'' @ X) = BASE_URL @ ''/catalogue/'' @ py_replace ''../'' [] X"
    by (simp add: book_url_of_href_def)
  then show ?thesis
    using py_replace_absent [of "''../''" X "[]"] by simp
qed

theorem book_url_of_dotdot_href_witness:
  "\<not> sublist ''../'' ''a/index.html''
   \<and> book_url_of_href ''../a/index.html'' = ''http://books.toscrape.com/catalogue/a/index.html''"
proof -
  have n: "\<not> sublist ''../'' ''a/index.html''"
    by (simp add: sublist_Cons_right)
  from n book_url_of_dotdot_href [of "''a/index.html''"]
  have "book_url_of_href (''../'' @ ''a/index.html'') = BASE_URL @ ''/catalogue/'' @ ''a/index.html''"
    by blast
  then show ?thesis
    using n by (simp add: BASE_URL_def)
qed

text \<open>
  The link \<open>../../x\<close> has the form \<open>../X\<close> with \<open>X\<close> being \<open>../x\<close>; its address is
  not the catalogue path followed by \<open>../x\<close>.
\<close>

theorem book_url_strips_every_dotdot:
  "book_url_of_href ''../../x'' = ''http://books.toscrape.com/catalogue/x''
   \<and> book_url_of_href ''../../x'' \<noteq> BASE_URL @ ''/catalogue/'' @ ''../x''"
  by (simp add: book_url_of_href_def BASE_URL_def py_replace.simps)

section \<open>Cards without a link\<close>

text \<open>
  Claim C9.  A card whose anchor has no \<open>href\<close>, or an empty one, changes nothing:
  the loop over the cards ends in the same state with the same result (the same
  requests, the same records or the same exception) as it does without that card.
\<close>

theorem cards_loop_skips_missing_href:
  "get_attr a ''href'' = None \<or> get_attr a ''href'' = Some [] \<Longrightarrow>
   cards_loop net (before @ a # after) w all_books = cards_loop net (before @ after) w all_books"
  by (induction before arbitrary: w all_books)
    (auto split: option.splits prod.splits sum.splits)

theorem cards_loop_skips_missing_href_witness:
  "cards_loop example_net [example_anchor] example_world [] = (example_world, Inr [])"
  using cards_loop_skips_missing_href [of example_anchor example_net "[]" "[]" example_world "[]"]
  by (simp add: example_anchor_def)

section \<open>The effects of the extractor\<close>

lemma url_book_data: "book_data u soup = Inr b \<Longrightarrow> url b = u"
  by (auto simp: book_data_def Let_def split: prod.splits sum.splits)

lemma get_book_data_requests: "requests (fst (get_book_data net u w)) = requests w @ [u]"
  by (simp add: get_book_data_def Let_def split: fetched.splits sum.splits)

lemma get_book_data_file:
  "books_file (fst (get_book_data net u w)) = books_file w
   \<and> artifacts_dir (fst (get_book_data net u w)) = artifacts_dir w"
  by (simp add: get_book_data_def Let_def split: fetched.splits sum.splits)

lemma get_book_data_ok:
  "net (requests w) u = Response code soup \<Longrightarrow> \<not> raises_for_status code \<Longrightarrow>
   book_data u soup = Inr d \<Longrightarrow>
   get_book_data net u w
     = (w\<lparr>requests := requests w @ [u], printed := printed w @ [d]\<rparr>, Inr d)"
  by (simp add: get_book_data_def Let_def)

lemma get_book_data_extraction_raises:
  "net (requests w) u = Response code soup \<Longrightarrow> \<not> raises_for_status code \<Longrightarrow>
   book_data u soup = Inl e \<Longrightarrow>
   get_book_data net u w = (w\<lparr>requests := requests w @ [u]\<rparr>, Inl e)"
  by (simp add: get_book_data_def Let_def)

lemma get_book_data_raises:
  "net (requests w) u = Response code soup \<Longrightarrow> raises_for_status code \<Longrightarrow>
   get_book_data net u w = (w\<lparr>requests := requests w @ [u]\<rparr>, Inl (HTTPError code))"
  by (simp add: get_book_data_def Let_def)

text \<open>
  Claim C1, as the code has it.  \<open>get_book_data\<close> takes the address alone and fetches
  the document itself: every call makes one request, for that address, and writes no
  file.  What it returns depends on the address and on the answer received only: when
  the answer passes \<open>raise_for_status\<close>, the result is that of the extraction of the
  document, \<open>book_data\<close>: a record, which is then printed, or the \<open>ValueError\<close> of
  \<open>int\<close>, and then nothing is printed.  Two calls that receive the same answer for the
  same address return the same record, or raise the same exception.
\<close>

theorem get_book_data_effect:
  "requests (fst (get_book_data net u w)) = requests w @ [u]
   \<and> books_file (fst (get_book_data net u w)) = books_file w
   \<and> (\<forall>code soup. net (requests w) u = Response code soup \<and> \<not> raises_for_status code
        \<longrightarrow> snd (get_book_data net u w) = book_data u soup
            \<and> printed (fst (get_book_data net u w))
                = printed w @ (case book_data u soup of Inl e \<Rightarrow> [] | Inr b \<Rightarrow> [b]))
   \<and> (\<forall>net' w'. net' (requests w') u = net (requests w) u
        \<longrightarrow> snd (get_book_data net' u w') = snd (get_book_data net u w))"
proof (intro conjI allI impI)
  show "requests (fst (get_book_data net u w)) = requests w @ [u]"
    by (rule get_book_data_requests)
  show "books_file (fst (get_book_data net u w)) = books_file w"
    by (simp add: get_book_data_file)
next
  fix code soup
  assume a: "net (requests w) u = Response code soup \<and> \<not> raises_for_status code"
  show "snd (get_book_data net u w) = book_data u soup"
    using a by (cases "book_data u soup")
      (simp_all add: get_book_data_ok get_book_data_extraction_raises)
  show "printed (fst (get_book_data net u w))
      = printed w @ (case book_data u soup of Inl e \<Rightarrow> [] | Inr b \<Rightarrow> [b])"
    using a by (cases "book_data u soup")
      (simp_all add: get_book_data_ok get_book_data_extraction_raises)
next
  fix net' :: network and w' :: world
  assume "net' (requests w') u = net (requests w) u"
  then show "snd (get_book_data net' u w') = snd (get_book_data net u w)"
    by (simp add: get_book_data_def Let_def split: fetched.splits sum.splits)
qed

lemma page_url_1: "page_url 1 = ''http://books.toscrape.com/catalogue/page-1.html''"
  by code_simp

lemma page_url_2: "page_url 2 = ''http://books.toscrape.com/catalogue/page-2.html''"
  by code_simp

lemma split_ws_plain:
  "\<forall>c\<in>set s. \<not> is_space c \<Longrightarrow> split_ws cur s = (if cur @ s = [] then [] else [cur @ s])"
  by (induction s arbitrary: cur) auto

lemma digits_search_digits:
  "s \<noteq> [] \<Longrightarrow> \<forall>c\<in>set s. is_digit c \<Longrightarrow> digits_search s = Some s"
  by (cases s) (simp_all add: digits_search_def takeWhile_all)

lemma long_availability_node:
  "select_one [tag_sel ''div'' [''product_main''], tag_sel ''p'' [''instock'', ''availability'']]
     (Tag ''[document]'' []
       [Tag ''div'' [(''class'', ''product_main'')]
          [Tag ''p'' [(''class'', ''instock availability'')] [NavigableString s]]])
   = Some (Tag ''p'' [(''class'', ''instock availability'')] [NavigableString s])"
  by code_simp

lemma parse_availability_long:
  assumes "\<forall>c\<in>set s. is_digit c" "int_max_str_digits < length s"
  shows "parse_availability (Some (join '' '' (py_split s))) = Inl ValueError"
proof -
  have ne: "s \<noteq> []" using assms(2) by auto
  have "\<forall>c\<in>set s. \<not> is_space c" using assms(1) digit_not_space by blast
  then have "join '' '' (py_split s) = s"
    using ne by (simp add: py_split_def split_ws_plain)
  then show ?thesis
    using ne assms by (simp add: parse_availability_def digits_search_digits py_int_def)
qed

lemma book_data_long_availability: "book_data u long_availability = Inl ValueError"
proof -
  have "parse_availability (Some (join '' '' (py_split (replicate 4301 (CHR ''1''))))) = Inl ValueError"
    by (rule parse_availability_long) (simp_all add: is_digit_def int_max_str_digits_def)
  then show ?thesis
    by (simp add: book_data_def long_availability_def long_availability_node get_text_def Let_def
        split: prod.splits)
qed

theorem get_book_data_effect_witness:
  "requests (fst (get_book_data example_net example_url example_world)) = [example_url]
   \<and> books_file (fst (get_book_data example_net example_url example_world)) = None
   \<and> snd (get_book_data example_net example_url example_world)
       = Inr (example_record example_url)
   \<and> printed (fst (get_book_data example_net example_url example_world))
       = [example_record example_url]
   \<and> snd (get_book_data long_availability_net example_url example_world) = Inl ValueError
   \<and> printed (fst (get_book_data long_availability_net example_url example_world)) = []
   \<and> snd (get_book_data changing_net example_url example_world)
       = snd (get_book_data example_net example_url example_world)"
proof -
  have a: "example_net (requests example_world) example_url = Response 200 example_detail
      \<and> \<not> raises_for_status 200"
    by (simp add: example_net_def example_url_def page_url_1 page_url_2 raises_for_status_def)
  have b: "changing_net (requests example_world) example_url
      = example_net (requests example_world) example_url"
    using a by (simp add: changing_net_def example_world_def)
  have c: "long_availability_net (requests example_world) example_url
      = Response 200 long_availability \<and> \<not> raises_for_status 200"
    by (simp add: long_availability_net_def raises_for_status_def)
  from get_book_data_effect [of example_net example_url example_world] a b
    get_book_data_effect [of long_availability_net example_url example_world] c
  show ?thesis
    by (simp add: example_world_def book_data_example_detail book_data_long_availability)
qed

text \<open>
  Two calls with the same address, one after the other, against a server that answers
  the second request with another document: the first call has made a request, and the
  two calls return different records.
\<close>

theorem get_book_data_fetches_and_varies:
  "requests (fst (get_book_data changing_net example_url example_world)) = [example_url]
   \<and> snd (get_book_data changing_net example_url example_world)
       \<noteq> snd (get_book_data changing_net example_url
                (fst (get_book_data changing_net example_url example_world)))"
proof -
  have "example_record example_url \<noteq> free_record example_url"
    by (simp add: example_record_def free_record_def)
  then show ?thesis
    by (simp add: get_book_data_def changing_net_def example_world_def raises_for_status_def Let_def
        book_data_example_detail book_data_example_free)
qed

section \<open>The loop over the cards\<close>

lemma cards_loop_file:
  "books_file (fst (cards_loop net cards w bs)) = books_file w
   \<and> artifacts_dir (fst (cards_loop net cards w bs)) = artifacts_dir w"
proof (induction cards arbitrary: w bs)
  case Nil
  then show ?case by simp
next
  case (Cons a cards)
  show ?case
  proof (cases "get_attr a ''href''")
    case None
    then show ?thesis using Cons by simp
  next
    case (Some h)
    show ?thesis
    proof (cases "h = []")
      case True
      then show ?thesis using Some Cons by simp
    next
      case False
      obtain w' r where g: "get_book_data net (book_url_of_href h) w = (w', r)"
        by (cases "get_book_data net (book_url_of_href h) w")
      then have f: "books_file w' = books_file w \<and> artifacts_dir w' = artifacts_dir w"
        using get_book_data_file [of net "book_url_of_href h" w] by simp
      show ?thesis
      proof (cases r)
        case (Inl e)
        then show ?thesis using Some False g f by simp
      next
        case (Inr d)
        then show ?thesis using Some False g f Cons [of w' "bs @ [d]"] by simp
      qed
    qed
  qed
qed

lemma cards_loop_append:
  "cards_loop net (xs @ ys) w bs =
     (case cards_loop net xs w bs of
        (w', Inl e) \<Rightarrow> (w', Inl e)
      | (w', Inr bs') \<Rightarrow> cards_loop net ys w' bs')"
  by (induction xs arbitrary: w bs) (auto split: option.splits prod.splits sum.splits)

lemma cards_loop_all_succeed:
  assumes "\<forall>h. \<forall>l\<in>set (card_hrefs cards).
             detail_page_succeeds (book_url_of_href l) (net h (book_url_of_href l))"
  shows "\<exists>w' new. cards_loop net cards w bs = (w', Inr (bs @ new))
           \<and> requests w' = requests w @ map book_url_of_href (card_hrefs cards)
           \<and> map url new = map book_url_of_href (card_hrefs cards)"
  using assms
proof (induction cards arbitrary: w bs)
  case Nil
  then show ?case by (simp add: card_hrefs_def)
next
  case (Cons a cards)
  have rest: "\<forall>h. \<forall>l\<in>set (card_hrefs cards).
      detail_page_succeeds (book_url_of_href l) (net h (book_url_of_href l))"
    using Cons.prems by (simp add: card_hrefs_def)
  show ?case
  proof (cases "get_attr a ''href''")
    case None
    then have "card_hrefs (a # cards) = card_hrefs cards" by (simp add: card_hrefs_def)
    then show ?thesis using None Cons.IH [OF rest, of w bs] by simp
  next
    case (Some h)
    show ?thesis
    proof (cases "h = []")
      case True
      then have "card_hrefs (a # cards) = card_hrefs cards"
        using Some by (simp add: card_hrefs_def)
      then show ?thesis using Some True Cons.IH [OF rest, of w bs] by simp
    next
      case False
      then have hrefs: "card_hrefs (a # cards) = h # card_hrefs cards"
        using Some by (simp add: card_hrefs_def)
      then have "detail_page_succeeds (book_url_of_href h) (net (requests w) (book_url_of_href h))"
        using Cons.prems by simp
      then obtain code soup d where
        r: "net (requests w) (book_url_of_href h) = Response code soup" "\<not> raises_for_status code"
        and bd: "book_data (book_url_of_href h) soup = Inr d"
        by (auto simp: detail_page_succeeds_def split: fetched.splits sum.splits)
      let ?d = d
      let ?w1 = "w\<lparr>requests := requests w @ [book_url_of_href h], printed := printed w @ [?d]\<rparr>"
      have g: "get_book_data net (book_url_of_href h) w = (?w1, Inr ?d)"
        using r bd by (rule get_book_data_ok)
      from Cons.IH [OF rest, of ?w1 "bs @ [?d]"] obtain w' new where
        n: "cards_loop net cards ?w1 (bs @ [?d]) = (w', Inr ((bs @ [?d]) @ new))"
           "requests w' = requests ?w1 @ map book_url_of_href (card_hrefs cards)"
           "map url new = map book_url_of_href (card_hrefs cards)"
        by blast
      have "cards_loop net (a # cards) w bs = (w', Inr (bs @ (?d # new)))"
        using Some False g n(1) by simp
      moreover have "requests w' = requests w @ map book_url_of_href (card_hrefs (a # cards))"
        using n(2) hrefs by simp
      moreover have "map url (?d # new) = map book_url_of_href (card_hrefs (a # cards))"
        using n(3) hrefs url_book_data [OF bd] by simp
      ultimately show ?thesis by blast
    qed
  qed
qed

lemma cards_loop_raises:
  assumes "cards_loop net before w bs = (w1, Inr bs1)"
    and "get_attr a ''href'' = Some h" "h \<noteq> []"
    and "net (requests w1) (book_url_of_href h) = Response code s" "raises_for_status code"
  shows "cards_loop net (before @ a # after) w bs
           = (w1\<lparr>requests := requests w1 @ [book_url_of_href h]\<rparr>, Inl (HTTPError code))"
  using assms by (simp add: cards_loop_append get_book_data_raises)

section \<open>The loop over the pages\<close>

lemma pages_loop_unavailable:
  "net (requests w) (page_url page) = Response code soup \<Longrightarrow> code \<noteq> 200 \<Longrightarrow>
   pages_loop net pmax page w bs = Some (w\<lparr>requests := requests w @ [page_url page]\<rparr>, Inr bs)"
  by (subst pages_loop.simps) simp

lemma pages_loop_terminates:
  assumes "\<forall>h. unavailable (net h (page_url n))"
  shows "page \<le> n \<Longrightarrow> \<exists>r. pages_loop net None page w bs = Some r"
proof (induction "nat (n - page)" arbitrary: page w bs)
  case 0
  then have "page = n" by simp
  then have "unavailable (net (requests w) (page_url page))" using assms by simp
  then obtain code soup where "net (requests w) (page_url page) = Response code soup" "code \<noteq> 200"
    by (auto simp: unavailable_def split: fetched.splits)
  then show ?case using pages_loop_unavailable by blast
next
  case (Suc k)
  show ?case
  proof (cases "net (requests w) (page_url page)")
    case ConnectionError
    then show ?thesis by (subst pages_loop.simps) simp
  next
    case (Response code soup)
    show ?thesis
    proof (cases "code = 200")
      case False
      then show ?thesis using Response pages_loop_unavailable by blast
    next
      case True
      obtain w' r where c: "cards_loop net (book_cards soup)
          (w\<lparr>requests := requests w @ [page_url page]\<rparr>) bs = (w', r)"
        by (cases "cards_loop net (book_cards soup) (w\<lparr>requests := requests w @ [page_url page]\<rparr>) bs")
      show ?thesis
      proof (cases r)
        case (Inl e)
        then show ?thesis using Response True c by (subst pages_loop.simps) simp
      next
        case (Inr bs')
        have "k = nat (n - (page + 1))" "page + 1 \<le> n" using Suc.hyps(2) by simp_all
        then obtain r' where "pages_loop net None (page + 1) w' bs' = Some r'"
          using Suc.hyps(1) [of "page + 1" w' bs'] by blast
        then show ?thesis using Response True c Inr by (subst pages_loop.simps) simp
      qed
    qed
  qed
qed

lemma scrape_books_Some:
  "pages_loop net pmax 1 w [] = Some r \<Longrightarrow> \<exists>r'. scrape_books net dumps is_save pmax w = Some r'"
  by (cases r) (auto simp: scrape_books_def split: sum.splits prod.splits)

lemma iteration_pages_loop:
  "iteration net pmax x y \<Longrightarrow>
   (case x of (p, w, bs) \<Rightarrow> pages_loop net pmax p w bs)
     = (case y of (p, w, bs) \<Rightarrow> pages_loop net pmax p w bs)"
proof (induction rule: iteration.induct)
  case (1 w p soup bs w' bs')
  then show ?case by (subst pages_loop.simps) simp
qed

lemma iterations_pages_loop:
  "(iteration net pmax)\<^sup>*\<^sup>* x y \<Longrightarrow>
   (case x of (p, w, bs) \<Rightarrow> pages_loop net pmax p w bs)
     = (case y of (p, w, bs) \<Rightarrow> pages_loop net pmax p w bs)"
  by (induction rule: rtranclp_induct) (auto dest: iteration_pages_loop)

lemma iteration_file:
  "iteration net pmax x y \<Longrightarrow>
   books_file (fst (snd y)) = books_file (fst (snd x))
   \<and> artifacts_dir (fst (snd y)) = artifacts_dir (fst (snd x))"
proof (induction rule: iteration.induct)
  case (1 w p soup bs w' bs')
  then show ?case
    using cards_loop_file [of net "book_cards soup" "w\<lparr>requests := requests w @ [page_url p]\<rparr>" bs]
    by simp
qed

lemma iterations_file:
  "(iteration net pmax)\<^sup>*\<^sup>* x y \<Longrightarrow>
   books_file (fst (snd y)) = books_file (fst (snd x))
   \<and> artifacts_dir (fst (snd y)) = artifacts_dir (fst (snd x))"
  by (induction rule: rtranclp_induct) (auto dest: iteration_file)

lemma example_cards:
  "book_cards example_catalog =
     [Tag ''a'' [(''href'', ''../a/index.html'')] [NavigableString ''A''],
      example_anchor,
      Tag ''a'' [(''href'', ''b/index.html'')] [NavigableString ''B'']]"
  by code_simp

lemma single_cards:
  "book_cards single_catalog = [Tag ''a'' [(''href'', ''b/index.html'')] [NavigableString ''B'']]"
  by code_simp

lemma url_a: "book_url_of_href ''../a/index.html'' = ''http://books.toscrape.com/catalogue/a/index.html''"
  by code_simp

lemma url_b: "book_url_of_href ''b/index.html'' = ''http://books.toscrape.com/catalogue/b/index.html''"
  by code_simp

lemma book_data_example_record: "book_data u example_detail = Inr (example_record u)"
  using book_data_example_detail
  by (simp add: book_data_def example_record_def Let_def split: prod.splits sum.splits)

lemma book_data_blank_record: "book_data u empty_document = Inr (blank_record u)"
proof -
  have "book_data [] empty_document = Inr (blank_record [])" by code_simp
  then show ?thesis
    by (simp add: book_data_def blank_record_def Let_def split: prod.splits sum.splits)
qed

lemmas example_eval =
  example_net_def failing_net_def not_modified_net_def example_world_def example_anchor_def
  page_url_1 page_url_2 url_a url_b get_book_data_def raises_for_status_def
  book_data_example_record book_data_blank_record Let_def

lemma example_first_iteration:
  "iteration example_net None
     (1, \<lparr>requests = [], printed = [], artifacts_dir = d, books_file = None\<rparr>, [])
     (1 + 1,
      \<lparr>requests = [page_url 1, ''http://books.toscrape.com/catalogue/a/index.html'',
                   ''http://books.toscrape.com/catalogue/b/index.html''],
        printed = [example_record ''http://books.toscrape.com/catalogue/a/index.html'',
                   example_record ''http://books.toscrape.com/catalogue/b/index.html''],
        artifacts_dir = d, books_file = None\<rparr>,
      [example_record ''http://books.toscrape.com/catalogue/a/index.html'',
       example_record ''http://books.toscrape.com/catalogue/b/index.html''])"
  by (rule iteration.intros [of example_net _ _ example_catalog])
    (simp_all add: example_cards, simp_all add: example_eval)

lemma example_catalog_links: "detail_links example_catalog = [''../a/index.html'', ''b/index.html'']"
  by code_simp

lemma example_links_urls:
  "map book_url_of_href [''../a/index.html'', ''b/index.html''] =
     [''http://books.toscrape.com/catalogue/a/index.html'',
      ''http://books.toscrape.com/catalogue/b/index.html'']"
  by code_simp

text \<open>
  Claim C3.  Without a page limit, the loop returns at once, with the records collected
  so far, when the fetch of a catalogue page comes back with a status other than 200.
  And if some page \<open>n\<close>, 1 or later, is unavailable whenever it is asked for, then
  \<open>scrape_books\<close> returns: it does not run for ever.
\<close>

theorem crawl_without_limit_terminates:
  "(\<forall>w bs page code soup.
      net (requests w) (page_url page) = Response code soup \<and> code \<noteq> 200
      \<longrightarrow> pages_loop net None page w bs
            = Some (w\<lparr>requests := requests w @ [page_url page]\<rparr>, Inr bs))
   \<and> ((\<exists>n\<ge>1. \<forall>h. unavailable (net h (page_url n)))
      \<longrightarrow> (\<exists>r. scrape_books net dumps is_save None w0 = Some r))"
proof (intro conjI allI impI)
  fix w :: world and bs page code soup
  assume "net (requests w) (page_url page) = Response code soup \<and> code \<noteq> 200"
  then show "pages_loop net None page w bs
      = Some (w\<lparr>requests := requests w @ [page_url page]\<rparr>, Inr bs)"
    using pages_loop_unavailable by blast
next
  assume "\<exists>n\<ge>1. \<forall>h. unavailable (net h (page_url n))"
  then obtain n where "1 \<le> n" "\<forall>h. unavailable (net h (page_url n))" by blast
  then obtain r where "pages_loop net None 1 w0 [] = Some r"
    using pages_loop_terminates [of net n 1 w0 "[]"] by blast
  then show "\<exists>r. scrape_books net dumps is_save None w0 = Some r"
    by (rule scrape_books_Some)
qed

theorem crawl_without_limit_terminates_witness:
  "pages_loop example_net None 2 example_world []
     = Some (example_world\<lparr>requests := [page_url 2]\<rparr>, Inr [])
   \<and> (\<exists>r. scrape_books example_net example_dumps True None example_world = Some r)"
proof -
  have a: "example_net (requests example_world) (page_url 2) = Response 404 empty_document \<and> (404::int) \<noteq> 200"
    by (simp add: example_net_def page_url_1 page_url_2)
  have b: "\<exists>n\<ge>1. \<forall>h. unavailable (example_net h (page_url n))"
    by (rule exI [of _ 2]) (simp add: example_net_def page_url_1 page_url_2 unavailable_def)
  from crawl_without_limit_terminates [of example_net example_dumps True example_world] a b
  show ?thesis by (auto simp: example_world_def)
qed

text \<open>
  Claim C4.  Let catalogue page 1 arrive with status 200 and let every detail page
  linked from it succeed: it is fetched, passes \<open>raise_for_status\<close> and is extracted
  without an exception.  Then \<open>scrape_books\<close> with the limit 1 returns; the requests
  it has made are page 1 followed by the detail pages of the links of page 1, in page
  order, and nothing else; and it returns one record per link, in the same order.
\<close>

theorem first_page_only:
  assumes "net (requests w) (page_url 1) = Response 200 soup"
    and "\<forall>h. \<forall>l\<in>set (detail_links soup).
           detail_page_succeeds (book_url_of_href l) (net h (book_url_of_href l))"
    and "is_save \<longrightarrow> artifacts_dir w"
  shows "\<exists>w' books. scrape_books net dumps is_save (Some 1) w = Some (w', Inr books)
           \<and> requests w' = requests w @ page_url 1 # map book_url_of_href (detail_links soup)
           \<and> length books = length (detail_links soup)
           \<and> map url books = map book_url_of_href (detail_links soup)"
proof -
  let ?w1 = "w\<lparr>requests := requests w @ [page_url 1]\<rparr>"
  from cards_loop_all_succeed [of "book_cards soup" net ?w1 "[]"] assms(2)
  obtain w' books where
    c: "cards_loop net (book_cards soup) ?w1 [] = (w', Inr books)"
       "requests w' = requests ?w1 @ map book_url_of_href (detail_links soup)"
       "map url books = map book_url_of_href (detail_links soup)"
    by (auto simp: detail_links_def)
  have p: "pages_loop net (Some 1) 1 w [] = Some (w', Inr books)"
    using assms(1) c(1) by (subst pages_loop.simps) simp
  have len: "length books = length (detail_links soup)"
    using c(3) by (metis length_map)
  have dir: "artifacts_dir w' = artifacts_dir w"
    using cards_loop_file [of net "book_cards soup" ?w1 "[]"] c(1) by simp
  show ?thesis
  proof (cases is_save)
    case False
    then have "scrape_books net dumps is_save (Some 1) w = Some (w', Inr books)"
      using p by (simp add: scrape_books_def)
    then show ?thesis using c(2,3) len by simp
  next
    case True
    let ?w2 = "w'\<lparr>books_file := Some (concat (map (\<lambda>b. dumps b @ [CHR 0x0A]) books))\<rparr>"
    have "scrape_books net dumps is_save (Some 1) w = Some (?w2, Inr books)"
      using p True assms(3) dir by (simp add: scrape_books_def save_books_def)
    moreover have "requests ?w2 = requests w @ page_url 1 # map book_url_of_href (detail_links soup)"
      using c(2) by simp
    ultimately show ?thesis using c(3) len by blast
  qed
qed

theorem first_page_only_witness:
  "\<exists>w' books. scrape_books example_net example_dumps True (Some 1) example_world = Some (w', Inr books)
     \<and> requests w' = [''http://books.toscrape.com/catalogue/page-1.html'',
                       ''http://books.toscrape.com/catalogue/a/index.html'',
                       ''http://books.toscrape.com/catalogue/b/index.html'']
     \<and> length books = 2"
proof -
  have a: "example_net (requests example_world) (page_url 1) = Response 200 example_catalog"
    by (simp add: example_net_def)
  have b: "\<forall>h. \<forall>l\<in>set (detail_links example_catalog).
      detail_page_succeeds (book_url_of_href l) (example_net h (book_url_of_href l))"
    using example_links_urls
    by (simp add: example_catalog_links example_net_def page_url_1 page_url_2
        detail_page_succeeds_def raises_for_status_def book_data_example_record)
  have c: "True \<longrightarrow> artifacts_dir example_world"
    by (simp add: example_world_def)
  from first_page_only [OF a b c, of example_dumps] obtain w' books where
    "scrape_books example_net example_dumps True (Some 1) example_world = Some (w', Inr books)"
    "requests w' = requests example_world @ page_url 1 # map book_url_of_href (detail_links example_catalog)"
    "length books = length (detail_links example_catalog)"
    by blast
  then have "scrape_books example_net example_dumps True (Some 1) example_world = Some (w', Inr books)
     \<and> requests w' = [''http://books.toscrape.com/catalogue/page-1.html'',
                       ''http://books.toscrape.com/catalogue/a/index.html'',
                       ''http://books.toscrape.com/catalogue/b/index.html'']
     \<and> length books = 2"
    using example_links_urls
    by (simp add: example_catalog_links page_url_1 example_world_def)
  then show ?thesis by blast
qed

text \<open>
  Claim C2, as the code has it.  Let a run have reached the head of the loop at page
  \<open>p\<close> with the records \<open>collected\<close>.  If page \<open>p\<close> arrives and the fetch of one of
  its detail pages is answered with a status from 400 to 599, the run ends with that
  \<open>HTTPError\<close> and the file is what it was before the run.  If the fetch of page \<open>p\<close>
  is answered with a status other than 200, the loop ends with \<open>collected\<close>: without
  \<open>is_save\<close> the run returns them and the file is untouched; with \<open>is_save\<close> the run
  returns them and the file holds one line per record, unless the file cannot be
  opened, and then the run ends with that error and the file is what it was.  If the
  fetch of page \<open>p\<close> raises, the run ends with that exception and the file is what it
  was.
\<close>

theorem failed_fetches:
  assumes "(iteration net pmax)\<^sup>*\<^sup>* (1, w0, []) (p, w, collected)"
  shows "(\<forall>soup before a after w1 bs1 h code s.
            net (requests w) (page_url p) = Response 200 soup
            \<and> book_cards soup = before @ a # after
            \<and> cards_loop net before (w\<lparr>requests := requests w @ [page_url p]\<rparr>) collected
                = (w1, Inr bs1)
            \<and> get_attr a ''href'' = Some h \<and> h \<noteq> []
            \<and> net (requests w1) (book_url_of_href h) = Response code s
            \<and> raises_for_status code
            \<longrightarrow> (\<exists>w'. scrape_books net dumps is_save pmax w0 = Some (w', Inl (HTTPError code))
                      \<and> books_file w' = books_file w0))
       \<and> (\<forall>code soup.
            net (requests w) (page_url p) = Response code soup \<and> code \<noteq> 200
            \<longrightarrow> (\<exists>w'. scrape_books net dumps False pmax w0 = Some (w', Inr collected)
                      \<and> books_file w' = books_file w0)
                \<and> (artifacts_dir w0 \<longrightarrow>
                     (\<exists>w'. scrape_books net dumps True pmax w0 = Some (w', Inr collected)
                        \<and> books_file w'
                            = Some (concat (map (\<lambda>b. dumps b @ [CHR 0x0A]) collected))))
                \<and> (\<not> artifacts_dir w0 \<longrightarrow>
                     (\<exists>w'. scrape_books net dumps True pmax w0 = Some (w', Inl FileNotFoundError)
                        \<and> books_file w' = books_file w0)))
       \<and> (net (requests w) (page_url p) = ConnectionError
            \<longrightarrow> (\<exists>w'. scrape_books net dumps is_save pmax w0 = Some (w', Inl RequestException)
                      \<and> books_file w' = books_file w0))"
proof -
  have run: "pages_loop net pmax 1 w0 [] = pages_loop net pmax p w collected"
    using iterations_pages_loop [OF assms] by simp
  have same_file: "books_file w = books_file w0" and dir: "artifacts_dir w = artifacts_dir w0"
    using iterations_file [OF assms] by simp_all
  have stop: "pages_loop net pmax 1 w0 []
        = Some (w\<lparr>requests := requests w @ [page_url p]\<rparr>, Inr collected)"
    if "net (requests w) (page_url p) = Response code soup \<and> code \<noteq> 200" for code soup
    using that run pages_loop_unavailable by simp
  show ?thesis
  proof (intro conjI allI impI)
    fix soup before a after w1 bs1 h code s
    assume a: "net (requests w) (page_url p) = Response 200 soup
            \<and> book_cards soup = before @ a # after
            \<and> cards_loop net before (w\<lparr>requests := requests w @ [page_url p]\<rparr>) collected
                = (w1, Inr bs1)
            \<and> get_attr a ''href'' = Some h \<and> h \<noteq> []
            \<and> net (requests w1) (book_url_of_href h) = Response code s
            \<and> raises_for_status code"
    let ?w' = "w1\<lparr>requests := requests w1 @ [book_url_of_href h]\<rparr>"
    have "cards_loop net (book_cards soup) (w\<lparr>requests := requests w @ [page_url p]\<rparr>) collected
            = (?w', Inl (HTTPError code))"
      using a cards_loop_raises [of net before _ collected w1 bs1 a h code s after] by simp
    then have "pages_loop net pmax p w collected = Some (?w', Inl (HTTPError code))"
      using a by (subst pages_loop.simps) simp
    then have "scrape_books net dumps is_save pmax w0 = Some (?w', Inl (HTTPError code))"
      using run by (simp add: scrape_books_def)
    moreover have "books_file w1 = books_file w"
      using a cards_loop_file [of net before "w\<lparr>requests := requests w @ [page_url p]\<rparr>" collected]
      by simp
    ultimately show "\<exists>w'. scrape_books net dumps is_save pmax w0 = Some (w', Inl (HTTPError code))
                      \<and> books_file w' = books_file w0"
      using same_file by simp
  next
    fix code soup
    assume "net (requests w) (page_url p) = Response code soup \<and> code \<noteq> 200"
    then show "\<exists>w'. scrape_books net dumps False pmax w0 = Some (w', Inr collected)
                      \<and> books_file w' = books_file w0"
      using stop same_file by (simp add: scrape_books_def)
  next
    fix code soup
    assume "net (requests w) (page_url p) = Response code soup \<and> code \<noteq> 200"
      and "artifacts_dir w0"
    then show "\<exists>w'. scrape_books net dumps True pmax w0 = Some (w', Inr collected)
                        \<and> books_file w' = Some (concat (map (\<lambda>b. dumps b @ [CHR 0x0A]) collected))"
      using stop dir by (simp add: scrape_books_def save_books_def)
  next
    fix code soup
    assume "net (requests w) (page_url p) = Response code soup \<and> code \<noteq> 200"
      and "\<not> artifacts_dir w0"
    then show "\<exists>w'. scrape_books net dumps True pmax w0 = Some (w', Inl FileNotFoundError)
                        \<and> books_file w' = books_file w0"
      using stop dir same_file by (simp add: scrape_books_def save_books_def)
  next
    assume "net (requests w) (page_url p) = ConnectionError"
    then have "pages_loop net pmax p w collected
        = Some (w\<lparr>requests := requests w @ [page_url p]\<rparr>, Inl RequestException)"
      by (subst pages_loop.simps) simp
    then show "\<exists>w'. scrape_books net dumps is_save pmax w0 = Some (w', Inl RequestException)
                      \<and> books_file w' = books_file w0"
      using run same_file by (simp add: scrape_books_def)
  qed
qed

theorem failed_fetches_witness:
  "(\<exists>w'. scrape_books failing_net example_dumps True None example_world
            = Some (w', Inl (HTTPError 404))
        \<and> books_file w' = None)
   \<and> (\<exists>w'. scrape_books example_net example_dumps True None example_world
            = Some (w', Inr [example_record ''http://books.toscrape.com/catalogue/a/index.html'',
                             example_record ''http://books.toscrape.com/catalogue/b/index.html''])
        \<and> books_file w'
            = Some (example_dumps (example_record ''http://books.toscrape.com/catalogue/a/index.html'')
                    @ [CHR 0x0A]
                    @ example_dumps (example_record ''http://books.toscrape.com/catalogue/b/index.html'')
                    @ [CHR 0x0A]))
   \<and> (\<exists>w'. scrape_books example_net example_dumps True None world_without_dir
            = Some (w', Inl FileNotFoundError)
        \<and> books_file w' = None)
   \<and> (\<exists>w'. scrape_books unreachable_net example_dumps True None example_world
            = Some (w', Inl RequestException)
        \<and> books_file w' = None)"
proof -
  let ?ua = "''http://books.toscrape.com/catalogue/a/index.html''"
  let ?ub = "''http://books.toscrape.com/catalogue/b/index.html''"
  let ?a = "Tag ''a'' [(''href'', ''../a/index.html'')] [NavigableString ''A'']"
  let ?b = "Tag ''a'' [(''href'', ''b/index.html'')] [NavigableString ''B'']"
  let ?w1 = "example_world\<lparr>requests := requests example_world @ [page_url 1]\<rparr>"
  let ?wa = "\<lparr>requests = [page_url 1, ?ua], printed = [example_record ?ua],
              artifacts_dir = True, books_file = None\<rparr>"
  let ?wb = "\<lambda>d. \<lparr>requests = [page_url 1, ?ua, ?ub],
              printed = [example_record ?ua, example_record ?ub],
              artifacts_dir = d, books_file = None\<rparr>"
  let ?both = "[example_record ?ua, example_record ?ub]"
  have start_f: "(iteration failing_net None)\<^sup>*\<^sup>* (1, example_world, []) (1, example_world, [])"
    by simp
  have fail: "failing_net (requests example_world) (page_url 1) = Response 200 example_catalog
      \<and> book_cards example_catalog = [?a, example_anchor] @ ?b # []
      \<and> cards_loop failing_net [?a, example_anchor] ?w1 [] = (?wa, Inr [example_record ?ua])
      \<and> get_attr ?b ''href'' = Some ''b/index.html'' \<and> ''b/index.html'' \<noteq> []
      \<and> failing_net (requests ?wa) (book_url_of_href ''b/index.html'') = Response 404 empty_document
      \<and> raises_for_status 404"
    by (simp add: example_cards) (simp add: example_eval)
  from failed_fetches [OF start_f, of example_dumps True] fail
  have first: "\<exists>w'. scrape_books failing_net example_dumps True None example_world
            = Some (w', Inl (HTTPError 404)) \<and> books_file w' = books_file example_world"
    by blast
  have reach: "(iteration example_net None)\<^sup>*\<^sup>* (1, example_world, []) (2, ?wb True, ?both)"
    using example_first_iteration [of True] by (simp add: example_world_def)
  have gone: "example_net (requests (?wb d)) (page_url 2) = Response 404 empty_document
      \<and> (404::int) \<noteq> 200" for d
    by (simp add: example_eval)
  have dir: "artifacts_dir example_world"
    by (simp add: example_world_def)
  from failed_fetches [OF reach, of example_dumps True] gone [of True] dir
  have second: "\<exists>w'. scrape_books example_net example_dumps True None example_world
            = Some (w', Inr ?both)
        \<and> books_file w' = Some (concat (map (\<lambda>b. example_dumps b @ [CHR 0x0A]) ?both))"
    by blast
  have reach_n: "(iteration example_net None)\<^sup>*\<^sup>* (1, world_without_dir, []) (2, ?wb False, ?both)"
    using example_first_iteration [of False] by (simp add: world_without_dir_def)
  have no_dir: "\<not> artifacts_dir world_without_dir"
    by (simp add: world_without_dir_def)
  from failed_fetches [OF reach_n, of example_dumps True] gone [of False] no_dir
  have third: "\<exists>w'. scrape_books example_net example_dumps True None world_without_dir
            = Some (w', Inl FileNotFoundError) \<and> books_file w' = books_file world_without_dir"
    by blast
  have start_u: "(iteration unreachable_net None)\<^sup>*\<^sup>* (1, example_world, []) (1, example_world, [])"
    by simp
  have down: "unreachable_net (requests example_world) (page_url 1) = ConnectionError"
    by (simp add: unreachable_net_def)
  from failed_fetches [OF start_u, of example_dumps True] down
  have fourth: "\<exists>w'. scrape_books unreachable_net example_dumps True None example_world
            = Some (w', Inl RequestException) \<and> books_file w' = books_file example_world"
    by blast
  from first second third fourth show ?thesis
    by (simp add: example_world_def world_without_dir_def)
qed

text \<open>
  Three runs the claim does not describe.  A detail page answered with the status 304,
  which is not a success status but is outside 400 to 599: the run does not abort, it
  returns a record for the page and saves it.  A catalogue page whose fetch fails with
  a transport error: the run does not end normally, it ends with that exception.  A
  catalogue page answered 404 while the directory of the file is missing and
  \<open>is_save\<close> is set: the run does not return the records, it ends with the error of
  \<open>open\<close>.
\<close>

theorem failures_outside_the_claim:
  "not_modified_net [page_url 1] (book_url_of_href ''b/index.html'') = Response 304 empty_document
   \<and> scrape_books not_modified_net example_dumps True (Some 1) example_world
       = Some (\<lparr>requests = [page_url 1, ''http://books.toscrape.com/catalogue/b/index.html''],
                 printed = [blank_record ''http://books.toscrape.com/catalogue/b/index.html''],
                 artifacts_dir = True,
                 books_file = Some (example_dumps
                   (blank_record ''http://books.toscrape.com/catalogue/b/index.html'')
                   @ [CHR 0x0A])\<rparr>,
               Inr [blank_record ''http://books.toscrape.com/catalogue/b/index.html''])
   \<and> scrape_books unreachable_net example_dumps False None example_world
       = Some (\<lparr>requests = [page_url 1], printed = [], artifacts_dir = True, books_file = None\<rparr>,
               Inl RequestException)
   \<and> example_net [page_url 1, ''http://books.toscrape.com/catalogue/a/index.html'',
                   ''http://books.toscrape.com/catalogue/b/index.html''] (page_url 2)
       = Response 404 empty_document
   \<and> scrape_books example_net example_dumps True None world_without_dir
       = Some (\<lparr>requests = [page_url 1, ''http://books.toscrape.com/catalogue/a/index.html'',
                              ''http://books.toscrape.com/catalogue/b/index.html'', page_url 2],
                 printed = [example_record ''http://books.toscrape.com/catalogue/a/index.html'',
                            example_record ''http://books.toscrape.com/catalogue/b/index.html''],
                 artifacts_dir = False, books_file = None\<rparr>,
               Inl FileNotFoundError)"
proof -
  have a: "pages_loop not_modified_net (Some 1) 1 example_world []
      = Some (\<lparr>requests = [page_url 1, ''http://books.toscrape.com/catalogue/b/index.html''],
                 printed = [blank_record ''http://books.toscrape.com/catalogue/b/index.html''],
                 artifacts_dir = True, books_file = None\<rparr>,
               Inr [blank_record ''http://books.toscrape.com/catalogue/b/index.html''])"
    by (subst pages_loop.simps) (simp add: not_modified_net_def single_cards, simp add: example_eval)
  have b: "pages_loop unreachable_net None 1 example_world []
      = Some (\<lparr>requests = [page_url 1], printed = [], artifacts_dir = True, books_file = None\<rparr>,
              Inl RequestException)"
    by (subst pages_loop.simps) (simp add: unreachable_net_def example_world_def)
  have "pages_loop example_net None 1 world_without_dir []
      = pages_loop example_net None (1 + 1)
          \<lparr>requests = [page_url 1, ''http://books.toscrape.com/catalogue/a/index.html'',
                       ''http://books.toscrape.com/catalogue/b/index.html''],
            printed = [example_record ''http://books.toscrape.com/catalogue/a/index.html'',
                       example_record ''http://books.toscrape.com/catalogue/b/index.html''],
            artifacts_dir = False, books_file = None\<rparr>
          [example_record ''http://books.toscrape.com/catalogue/a/index.html'',
           example_record ''http://books.toscrape.com/catalogue/b/index.html'']"
    using iteration_pages_loop [OF example_first_iteration [of False]]
    by (simp add: world_without_dir_def)
  then have c: "pages_loop example_net None 1 world_without_dir []
      = Some (\<lparr>requests = [page_url 1, ''http://books.toscrape.com/catalogue/a/index.html'',
                              ''http://books.toscrape.com/catalogue/b/index.html'', page_url 2],
                 printed = [example_record ''http://books.toscrape.com/catalogue/a/index.html'',
                            example_record ''http://books.toscrape.com/catalogue/b/index.html''],
                 artifacts_dir = False, books_file = None\<rparr>,
               Inr [example_record ''http://books.toscrape.com/catalogue/a/index.html'',
                    example_record ''http://books.toscrape.com/catalogue/b/index.html''])"
    by (simp only:) (subst pages_loop.simps, simp add: example_eval)
  show ?thesis
    using a b c by (simp add: scrape_books_def save_books_def example_eval)
qed

end
